theory Spec2Isabelle
  imports Complex_Main
begin

section \<open>JSON values\<close>

text \<open>
  Untyped payloads (the result of \<^verbatim>\<open>JSON.parse\<close>, the bodies of responses) are JSON
  values. An object is the list of its properties in insertion order; numbers are
  rationals (\<^verbatim>\<open>0.55\<close> is \<open>55 / 100\<close>).
\<close>

datatype json =
    JNull
  | JBool bool
  | JNum rat
  | JStr string
  | JArr "json list"
  | JObj "(string \<times> json) list"

section \<open>Mutable state\<close>

text \<open>
  The three generation strategies of \<^verbatim>\<open>aiFallback\<close>, in the order of the source:
  function calling (tools), strict \<^verbatim>\<open>json_schema\<close>, and \<^verbatim>\<open>json_object\<close>.
\<close>

datatype strategy = Tools | JsonSchema | JsonObject

text \<open>
  The state of the server process. \<^verbatim>\<open>aiBucket: Map<string, { count: number; since: number }>\<close>
  is the module-level state of the search route, \<^verbatim>\<open>attempts: Map<string, RateEntry>\<close>
  that of the contact route. The world also counts the readings of \<^verbatim>\<open>Date.now()\<close>
  taken so far, logs every call of \<^verbatim>\<open>openai.chat.completions.create\<close> and
  every message handed to \<^verbatim>\<open>transporter.sendMail\<close>.
\<close>

record bucket =
  count :: nat
  since :: int

record RateEntry =
  r_count :: nat
  ts :: int

record mail =
  m_from :: string
  m_to :: string
  m_replyTo :: string
  m_subject :: string
  m_text :: string

record world =
  aiBucket :: "string \<rightharpoonup> bucket"
  attempts :: "string \<rightharpoonup> RateEntry"
  ticks :: nat
  calls :: "strategy list"
  sent :: "mail list"

text \<open>The \<open>k\<close>-th reading of \<^verbatim>\<open>Date.now()\<close> is \<open>clk k\<close>, in milliseconds.\<close>

definition DateNow :: "(nat \<Rightarrow> int) \<Rightarrow> world \<Rightarrow> int \<times> world" where
  "DateNow clk w = (clk (ticks w), w\<lparr>ticks := ticks w + 1\<rparr>)"

section \<open>Rate limiter for AI calls\<close>

definition aiWindowMs :: int where
  "aiWindowMs = 60000"

definition aiMaxCalls :: nat where
  "aiMaxCalls = 20"

definition allowAiCall :: "(nat \<Rightarrow> int) \<Rightarrow> string \<Rightarrow> world \<Rightarrow> bool \<times> world" where
  "allowAiCall clk key w =
     (let (now, w1) = DateNow clk w;
          b = (case aiBucket w1 key of None \<Rightarrow> \<lparr>count = 0, since = now\<rparr> | Some b0 \<Rightarrow> b0);
          b1 = (if now - since b > aiWindowMs then b\<lparr>count := 0, since := now\<rparr> else b);
          b2 = b1\<lparr>count := count b1 + 1\<rparr>
      in (count b2 \<le> aiMaxCalls, w1\<lparr>aiBucket := (aiBucket w1)(key \<mapsto> b2)\<rparr>))"

text \<open>\<open>n\<close> calls for one key, one after the other; the results in call order.\<close>

fun allowAiCalls :: "(nat \<Rightarrow> int) \<Rightarrow> string \<Rightarrow> nat \<Rightarrow> world \<Rightarrow> bool list \<times> world" where
  "allowAiCalls clk key 0 w = ([], w)"
| "allowAiCalls clk key (Suc n) w =
     (let (r, w1) = allowAiCall clk key w;
          (rs, w2) = allowAiCalls clk key n w1
      in (r # rs, w2))"

section \<open>Strings\<close>

text \<open>
  JavaScript strings are modelled as \<open>string\<close>; a character stands for one code unit
  below 256. \<open>String_of_nat\<close> is \<^verbatim>\<open>String(n)\<close> on a non-negative integer.
\<close>

definition digit_char :: "nat \<Rightarrow> char" where
  "digit_char d = char_of (48 + d)"

fun String_of_nat :: "nat \<Rightarrow> string" where
  "String_of_nat n =
     (if n < 10 then [digit_char n] else String_of_nat (n div 10) @ [digit_char (n mod 10)])"

declare String_of_nat.simps [simp del]

definition String_of_int :: "int \<Rightarrow> string" where
  "String_of_int i = (if i < 0 then CHR ''-'' # String_of_nat (nat (- i)) else String_of_nat (nat i))"

text \<open>
  The white space of \<^verbatim>\<open>String.prototype.trim\<close> and of \<^verbatim>\<open>\s\<close>, among the
  code units below 256: tab, line feed, vertical tab, form feed, carriage return, space
  and the no-break space.
\<close>

definition is_ws :: "char \<Rightarrow> bool" where
  "is_ws c = (of_char c \<in> {9, 10, 11, 12, 13, 32, 160 :: nat})"

definition trim :: "string \<Rightarrow> string" where
  "trim s = rev (dropWhile is_ws (rev (dropWhile is_ws s)))"

definition lower_char :: "char \<Rightarrow> char" where
  "lower_char c = (let n = (of_char c :: nat) in if 65 \<le> n \<and> n \<le> 90 then char_of (n + 32) else c)"

text \<open>
  \<^verbatim>\<open>s.replace(/^p\s*/i, "")\<close> for a lower-case literal \<open>p\<close>: a prefix that is \<open>p\<close>
  up to case is removed together with the white space after it.
\<close>

definition strip_prefix_ws :: "string \<Rightarrow> string \<Rightarrow> string" where
  "strip_prefix_ws p s =
     (if map lower_char (take (length p) s) = p then dropWhile is_ws (drop (length p) s) else s)"

text \<open>\<^verbatim>\<open>s.replace(/p$/i, "")\<close> for a literal \<open>p\<close> without letters.\<close>

definition strip_suffix :: "string \<Rightarrow> string \<Rightarrow> string" where
  "strip_suffix p s =
     (if length p \<le> length s \<and> drop (length s - length p) s = p
      then take (length s - length p) s else s)"

text \<open>\<^verbatim>\<open>s.lastIndexOf(c)\<close>: the last index of \<open>c\<close>, or \<open>-1\<close>.\<close>

definition lastIndexOf :: "char \<Rightarrow> string \<Rightarrow> int" where
  "lastIndexOf c s =
     (case filter (\<lambda>i. s ! i = c) (rev [0..<length s]) of [] \<Rightarrow> - 1 | i # _ \<Rightarrow> int i)"

definition sanitizeJsonString :: "string \<Rightarrow> string" where
  "sanitizeJsonString s0 =
     (if s0 = [] then s0
      else
        let s = trim (strip_suffix ''```'' (strip_prefix_ws ''```'' (strip_prefix_ws ''```json'' (trim s0))));
            lastBrace = lastIndexOf CHR ''}'' s;
            lastBracket = lastIndexOf CHR '']'' s;
            cut = max lastBrace lastBracket
        in if cut > 0 then take (nat (cut + 1)) s else s)"

section \<open>Filters\<close>

text \<open>
  \<^verbatim>\<open>params: { type?: string; origin?: string; destination?: string }\<close>; \<open>None\<close> is
  \<^verbatim>\<open>undefined\<close>. A value is truthy when it is a non-empty string.
\<close>

record params =
  p_type :: "string option"
  p_origin :: "string option"
  p_destination :: "string option"

definition truthy :: "string option \<Rightarrow> bool" where
  "truthy v = (case v of None \<Rightarrow> False | Some s \<Rightarrow> s \<noteq> [])"

text \<open>\<^verbatim>\<open>v || d\<close> on an optional string.\<close>

definition or_else :: "string option \<Rightarrow> string \<Rightarrow> string" where
  "or_else v d = (case v of None \<Rightarrow> d | Some s \<Rightarrow> if s = [] then d else s)"

section \<open>Stub suggestion\<close>

text \<open>
  \<^verbatim>\<open>CarrierOut\<close> values are JSON objects, as they are sent in the response. The
  compass glyph of \<^verbatim>\<open>logoEmoji\<close> is written as its UTF-8 bytes.
\<close>

type_synonym CarrierOut = json

definition compass :: string where
  "compass = [char_of (240 :: nat), char_of (159 :: nat), char_of (167 :: nat), char_of (173 :: nat)]"

definition stubSuggestion :: "(nat \<Rightarrow> int) \<Rightarrow> params \<Rightarrow> world \<Rightarrow> CarrierOut list \<times> world" where
  "stubSuggestion clk p w =
     (let (now, w1) = DateNow clk w in
      ([JObj
         [(''id'', JStr (''ai-stub-'' @ String_of_int now)),
          (''name'', JStr ''Regional Carrier Suggestion''),
          (''verified'', JBool False),
          (''types'', JArr [JStr (or_else (p_type p) ''truck'')]),
          (''lanes'', JArr [JObj [(''origin'', JStr (or_else (p_origin p) ''FR'')),
                                   (''destination'', JStr (or_else (p_destination p) ''ES''))]]),
          (''description'', JStr ''Unverified suggestion based on similar lanes in the region.''),
          (''logoEmoji'', JStr compass),
          (''source'', JStr ''ai''),
          (''confidence'', JNum (55 / 100))]], w1))"

section \<open>AJV schema and validator\<close>

text \<open>
  The fragment of JSON Schema that \<^verbatim>\<open>carriersJsonSchema\<close> uses: \<^verbatim>\<open>type\<close>
  (object, array or string), \<^verbatim>\<open>nullable\<close>, \<^verbatim>\<open>additionalProperties\<close>,
  \<^verbatim>\<open>required\<close>, \<^verbatim>\<open>properties\<close>, \<^verbatim>\<open>items\<close> and \<^verbatim>\<open>enum\<close>.
\<close>

datatype jtype = TObject | TArray | TString

datatype schema =
  Schema
    (stype : jtype)
    (nullable : bool)
    (additionalProperties : bool)
    (required : "string list")
    (properties : "(string \<times> schema) list")
    (items : "schema option")
    (enum : "string list option")

definition string_schema :: schema where
  "string_schema = Schema TString False True [] [] None None"

definition nullable_string_schema :: schema where
  "nullable_string_schema = Schema TString True True [] [] None None"

definition lane_schema :: schema where
  "lane_schema =
     Schema TObject False False [''origin'', ''destination'']
       [(''origin'', string_schema), (''destination'', string_schema)] None None"

definition transport_schema :: schema where
  "transport_schema =
     Schema TString False True [] [] None
       (Some [''truck'', ''reefer'', ''container'', ''flatbed'', ''tanker''])"

definition item_schema :: schema where
  "item_schema =
     Schema TObject False False [''id'', ''name'', ''types'', ''lanes'']
       [(''id'', string_schema),
        (''name'', string_schema),
        (''types'', Schema TArray False True [] [] (Some transport_schema) None),
        (''lanes'', Schema TArray False True [] [] (Some lane_schema) None),
        (''description'', nullable_string_schema),
        (''logoEmoji'', nullable_string_schema)] None None"

definition carriersJsonSchema :: schema where
  "carriersJsonSchema =
     Schema TObject False False [''items'']
       [(''items'', Schema TArray False True [] [] (Some item_schema) None)] None None"

text \<open>
  An AJV error, reduced to its keyword and its parameter (the expected type, the
  missing property, or nothing for \<^verbatim>\<open>enum\<close>).
\<close>

datatype ajv_error = ErrType jtype | ErrRequired string | ErrEnum

text \<open>
  The validator that \<^verbatim>\<open>new Ajv({ removeAdditional: "all", allErrors: true })\<close>
  compiles from a schema. It returns the data as the validation leaves it and all the
  errors; the data is valid when there is none.
  \<^item> A value of the wrong type is one \<^verbatim>\<open>type\<close> error and is not looked into;
    \<^verbatim>\<open>null\<close> passes a nullable schema.
  \<^item> With \<^verbatim>\<open>removeAdditional: "all"\<close> every property of an object that is not
    listed in \<^verbatim>\<open>properties\<close> is deleted, whatever \<^verbatim>\<open>additionalProperties\<close> says,
    and is not validated.
  \<^item> With \<^verbatim>\<open>allErrors: true\<close> the validation goes on after an error.
\<close>

fun validate :: "schema \<Rightarrow> json \<Rightarrow> json \<times> ajv_error list" where
  "validate s JNull = (JNull, if nullable s then [] else [ErrType (stype s)])"
| "validate s (JBool b) = (JBool b, [ErrType (stype s)])"
| "validate s (JNum n) = (JNum n, [ErrType (stype s)])"
| "validate s (JStr x) =
     (JStr x,
      if stype s \<noteq> TString then [ErrType (stype s)]
      else (case enum s of
              None \<Rightarrow> []
            | Some vs \<Rightarrow> if x \<in> set vs then [] else [ErrEnum]))"
| "validate s (JArr xs) =
     (if stype s \<noteq> TArray then (JArr xs, [ErrType (stype s)])
      else (case items s of
              None \<Rightarrow> (JArr xs, [])
            | Some si \<Rightarrow>
                let rs = map (validate si) xs
                in (JArr (map fst rs), concat (map snd rs))))"
| "validate s (JObj kvs) =
     (if stype s \<noteq> TObject then (JObj kvs, [ErrType (stype s)])
      else
        let missing = filter (\<lambda>k. k \<notin> fst ` set kvs) (required s);
            kept = filter (\<lambda>kv. fst kv \<in> fst ` set (properties s)) kvs;
            rs = map (\<lambda>kv. (fst kv, validate (the (map_of (properties s) (fst kv))) (snd kv))) kept
        in (JObj (map (\<lambda>r. (fst r, fst (snd r))) rs),
            map ErrRequired missing @ concat (map (\<lambda>r. snd (snd r)) rs)))"

declare validate.simps [simp del]

text \<open>
  \<^verbatim>\<open>validateCarriers(data)\<close>: whether the data is valid, the data after the call
  (AJV modifies it in place), and \<^verbatim>\<open>validateCarriers.errors\<close>.
\<close>

definition validateCarriers :: "json \<Rightarrow> bool \<times> json \<times> ajv_error list" where
  "validateCarriers d = (let (d', errs) = validate carriersJsonSchema d in (errs = [], d', errs))"

section \<open>The provider, the parser and the database\<close>

text \<open>
  What the handler awaits either resolves to a value or rejects. A chat completion is
  the list of the messages of its choices; a message has an optional text content and
  optional tool calls, and a function tool call has the text of its arguments.
\<close>

datatype 'a promise = Rejected | Resolved 'a

record tool_call =
  tc_type :: string
  arguments :: string

record message =
  content :: "string option"
  tool_calls :: "tool_call list option"

type_synonym completion = "message list"

text \<open>The exceptions of the two routes.\<close>

datatype error = ProviderError | SyntaxError | DbError | Error string

record Lane =
  origin :: string
  destination :: string

record Contact =
  email :: "string option"
  phone :: "string option"
  website :: "string option"

record CarrierDoc =
  d_id :: string
  name :: string
  verified :: bool
  rating :: "rat option"
  types :: "string list"
  lanes :: "Lane list"
  description :: "string option"
  contact :: "Contact option"
  logoEmoji :: "string option"

text \<open>
  The database as one request sees it: \<^verbatim>\<open>dbConnect()\<close> rejects, or the query
  rejects, or the collection holds these documents.
\<close>

datatype db_state = ConnectFails | FindFails | Collection "CarrierDoc list"

text \<open>
  The environment of a request: the clk, the variables of \<^verbatim>\<open>process.env\<close> that
  the search route reads, \<^verbatim>\<open>JSON.parse\<close> (\<open>None\<close> when it throws), the answer of
  the provider to the call of each strategy, and the database.
\<close>

record env =
  clock :: "nat \<Rightarrow> int"
  env_OPENAI_API_KEY :: "string option"
  env_AI_FALLBACK_ENABLED :: "string option"
  JSON_parse :: "string \<Rightarrow> json option"
  create :: "strategy \<Rightarrow> completion promise"
  database :: db_state

text \<open>\<^verbatim>\<open>const { OPENAI_API_KEY, AI_FALLBACK_ENABLED = "true" } = process.env\<close>.\<close>

definition OPENAI_API_KEY :: "env \<Rightarrow> string option" where
  "OPENAI_API_KEY e = env_OPENAI_API_KEY e"

definition AI_FALLBACK_ENABLED :: "env \<Rightarrow> string" where
  "AI_FALLBACK_ENABLED e = (case env_AI_FALLBACK_ENABLED e of None \<Rightarrow> ''true'' | Some v \<Rightarrow> v)"

section \<open>AI fallback with guardrails\<close>

definition MIN_FILTERS_FOR_AI :: nat where
  "MIN_FILTERS_FOR_AI = 2"

text \<open>\<^verbatim>\<open>(parsed as AICarriersResponse).items\<close>, read after a successful validation.\<close>

definition items_of :: "json \<Rightarrow> json list" where
  "items_of parsed =
     (case parsed of
        JObj kvs \<Rightarrow> (case map_of kvs ''items'' of Some (JArr xs) \<Rightarrow> xs | _ \<Rightarrow> [])
      | _ \<Rightarrow> [])"

text \<open>
  Writing a property of an object literal after a spread: an existing key keeps its
  place and takes the new value, a new key goes to the end.
\<close>

definition set_prop :: "string \<Rightarrow> json \<Rightarrow> (string \<times> json) list \<Rightarrow> (string \<times> json) list" where
  "set_prop k v kvs =
     (if k \<in> fst ` set kvs then map (\<lambda>kv. if fst kv = k then (k, v) else kv) kvs
      else kvs @ [(k, v)])"

text \<open>
  \<^verbatim>\<open>(x) => ({ ...x, verified: false, source: "ai", confidence: 0.55 })\<close>. The items it
  is applied to have passed the validation and are objects.
\<close>

definition toCarrierOut :: "json \<Rightarrow> CarrierOut" where
  "toCarrierOut x =
     JObj (set_prop ''confidence'' (JNum (55 / 100))
            (set_prop ''source'' (JStr ''ai'')
              (set_prop ''verified'' (JBool False)
                (case x of JObj kvs \<Rightarrow> kvs | _ \<Rightarrow> []))))"

text \<open>\<^verbatim>\<open>items.slice(0, 5).map(...)\<close>.\<close>

definition mapped_of :: "json \<Rightarrow> CarrierOut list" where
  "mapped_of parsed = map toCarrierOut (take 5 (items_of parsed))"

text \<open>
  \<^verbatim>\<open>completion.choices[0]?.message?.content ?? '{"items":[]}'\<close>; the default text
  has the double quote as \<open>CHR 0x22\<close>.
\<close>

definition empty_items_text :: string where
  "empty_items_text = ''{'' @ [CHR 0x22] @ ''items'' @ [CHR 0x22] @ '':[]}''"

definition content_of :: "completion \<Rightarrow> string" where
  "content_of completion =
     (case completion of
        [] \<Rightarrow> empty_items_text
      | m # _ \<Rightarrow> (case content m of None \<Rightarrow> empty_items_text | Some c \<Rightarrow> c))"

text \<open>
  The three \<^verbatim>\<open>try\<close> blocks of \<^verbatim>\<open>aiFallback\<close>. \<open>Inr out\<close>: the block returned
  \<open>out\<close> from \<^verbatim>\<open>aiFallback\<close>. \<open>Inl err\<close>: it threw \<open>err\<close>, which its
  \<^verbatim>\<open>catch\<close> receives. Each block first calls the provider, which the world logs.
\<close>

definition tryTools :: "env \<Rightarrow> params \<Rightarrow> world \<Rightarrow> (error + CarrierOut list) \<times> world" where
  "tryTools e p w =
     (let w1 = w\<lparr>calls := calls w @ [Tools]\<rparr> in
      case create e Tools of
        Rejected \<Rightarrow> (Inl ProviderError, w1)
      | Resolved completion \<Rightarrow>
          let toolCalls =
                (case completion of
                   [] \<Rightarrow> []
                 | m # _ \<Rightarrow> (case tool_calls m of None \<Rightarrow> [] | Some tcs \<Rightarrow> tcs))
          in (case find (\<lambda>tc. tc_type tc = ''function'') toolCalls of
                None \<Rightarrow> (Inl (Error ''no_function_tool_call''), w1)
              | Some fnCall \<Rightarrow>
                  let argText = arguments fnCall in
                  if argText = [] then (Inl (Error ''no_tool_call_arguments''), w1)
                  else (case JSON_parse e argText of
                          None \<Rightarrow> (Inl SyntaxError, w1)
                        | Some parsed0 \<Rightarrow>
                            let (valid, parsed, errs) = validateCarriers parsed0 in
                            if \<not> valid then (Inl (Error ''ajv_validation_failed_tools''), w1)
                            else
                              let mapped = mapped_of parsed in
                              if length mapped > 0 then (Inr mapped, w1)
                              else (let (out, w2) = stubSuggestion (clock e) p w1
                                    in (Inr out, w2)))))"

definition trySchema :: "env \<Rightarrow> params \<Rightarrow> world \<Rightarrow> (error + CarrierOut list) \<times> world" where
  "trySchema e p w =
     (let w1 = w\<lparr>calls := calls w @ [JsonSchema]\<rparr> in
      case create e JsonSchema of
        Rejected \<Rightarrow> (Inl ProviderError, w1)
      | Resolved completion \<Rightarrow>
          let raw = content_of completion;
              text = sanitizeJsonString raw
          in (case JSON_parse e text of
                None \<Rightarrow> (Inl SyntaxError, w1)
              | Some parsed0 \<Rightarrow>
                  let (valid, parsed, errs) = validateCarriers parsed0 in
                  if \<not> valid then (Inl (Error ''ajv_validation_failed_schema''), w1)
                  else
                    let mapped = mapped_of parsed in
                    if length mapped > 0 then (Inr mapped, w1)
                    else (let (out, w2) = stubSuggestion (clock e) p w1
                          in (Inr out, w2))))"

definition tryObject :: "env \<Rightarrow> params \<Rightarrow> world \<Rightarrow> (error + CarrierOut list) \<times> world" where
  "tryObject e p w =
     (let w1 = w\<lparr>calls := calls w @ [JsonObject]\<rparr> in
      case create e JsonObject of
        Rejected \<Rightarrow> (Inl ProviderError, w1)
      | Resolved completion2 \<Rightarrow>
          let raw2 = content_of completion2;
              text2 = sanitizeJsonString raw2
          in (case JSON_parse e text2 of
                None \<Rightarrow> (Inl SyntaxError, w1)
              | Some parsed0 \<Rightarrow>
                  let (valid, parsed2, errs) = validateCarriers parsed0 in
                  if \<not> valid then (let (out, w2) = stubSuggestion (clock e) p w1
                                     in (Inr out, w2))
                  else
                    let mapped2 = mapped_of parsed2 in
                    if length mapped2 > 0 then (Inr mapped2, w1)
                    else (let (out, w2) = stubSuggestion (clock e) p w1
                          in (Inr out, w2))))"

text \<open>
  \<^verbatim>\<open>aiFallback(params, rateKey)\<close>. The first two \<^verbatim>\<open>catch\<close> clauses log the error
  and go on to the next strategy; the last one returns the stub. The logging to the
  console is not modelled, and the construction of the client between the gates and
  the first \<^verbatim>\<open>try\<close>, which has the key, is taken to succeed.
\<close>

definition aiFallback :: "env \<Rightarrow> params \<Rightarrow> string \<Rightarrow> world \<Rightarrow> CarrierOut list \<times> world" where
  "aiFallback e p rateKey w =
     (if AI_FALLBACK_ENABLED e \<noteq> ''true'' then stubSuggestion (clock e) p w
      else
        let filled = length (filter truthy [p_type p, p_origin p, p_destination p]) in
        if filled < MIN_FILTERS_FOR_AI then stubSuggestion (clock e) p w
        else
          let (allowed, w1) = allowAiCall (clock e) rateKey w in
          if \<not> allowed then stubSuggestion (clock e) p w1
          else if \<not> truthy (OPENAI_API_KEY e) then stubSuggestion (clock e) p w1
          else
            (case tryTools e p w1 of
               (Inr out, w2) \<Rightarrow> (out, w2)
             | (Inl err, w2) \<Rightarrow>
                 (case trySchema e p w2 of
                    (Inr out, w3) \<Rightarrow> (out, w3)
                  | (Inl err, w3) \<Rightarrow>
                      (case tryObject e p w3 of
                         (Inr out, w4) \<Rightarrow> (out, w4)
                       | (Inl e2, w4) \<Rightarrow> stubSuggestion (clock e) p w4))))"

section \<open>The search handler\<close>

text \<open>
  The body of a search request as \<^verbatim>\<open>await req.json()\<close> gives it: the filters
  \<^verbatim>\<open>{ type, origin, destination, verifiedOnly }\<close>, each one optional. The request
  has no body value (\<open>None\<close>) when its text is not well-formed JSON, or is the JSON
  \<^verbatim>\<open>null\<close>: then \<^verbatim>\<open>req.json()\<close> rejects, or the destructuring throws.
\<close>

record search_body =
  b_type :: "string option"
  b_origin :: "string option"
  b_destination :: "string option"
  b_verifiedOnly :: "bool option"

record request =
  body :: "search_body option"
  x_forwarded_for :: "string option"
  cf_connecting_ip :: "string option"

text \<open>
  A response of \<^verbatim>\<open>NextResponse.json\<close>: the status, the JSON body and the
  \<^verbatim>\<open>x-duration-ms\<close> header when it is set.
\<close>

record response =
  status :: nat
  json_body :: json
  x_duration_ms :: "string option"

text \<open>
  \<^verbatim>\<open>CarrierQuery\<close>: the keys \<^verbatim>\<open>types\<close>, \<^verbatim>\<open>"lanes.origin"\<close>,
  \<^verbatim>\<open>"lanes.destination"\<close> when present, and whether \<^verbatim>\<open>verified: true\<close> is.
\<close>

record CarrierQuery =
  q_types :: "string option"
  q_lanes_origin :: "string option"
  q_lanes_destination :: "string option"
  q_verified :: bool

definition build_query :: "search_body \<Rightarrow> CarrierQuery" where
  "build_query b =
     \<lparr>q_types = (if truthy (b_type b) then b_type b else None),
      q_lanes_origin = (if truthy (b_origin b) then b_origin b else None),
      q_lanes_destination = (if truthy (b_destination b) then b_destination b else None),
      q_verified = (b_verifiedOnly b = Some True)\<rparr>"

text \<open>
  What MongoDB matches: a key on an array field matches a document when some element
  of the array equals the value, and all the keys of the query must match.
\<close>

definition matches :: "CarrierQuery \<Rightarrow> CarrierDoc \<Rightarrow> bool" where
  "matches q c =
     ((case q_types q of None \<Rightarrow> True | Some t \<Rightarrow> t \<in> set (types c))
      \<and> (case q_lanes_origin q of None \<Rightarrow> True | Some a \<Rightarrow> a \<in> set (map origin (lanes c)))
      \<and> (case q_lanes_destination q of None \<Rightarrow> True | Some a \<Rightarrow> a \<in> set (map destination (lanes c)))
      \<and> (if q_verified q then verified c else True))"

text \<open>\<^verbatim>\<open>Carrier.find(q).limit(50).lean()\<close> on a collection.\<close>

definition find_limit_50 :: "CarrierQuery \<Rightarrow> CarrierDoc list \<Rightarrow> CarrierDoc list" where
  "find_limit_50 q docs = take 50 (filter (matches q) docs)"

text \<open>A property whose value is \<^verbatim>\<open>undefined\<close> is left out of the JSON body.\<close>

definition opt_prop :: "string \<Rightarrow> ('a \<Rightarrow> json) \<Rightarrow> 'a option \<Rightarrow> (string \<times> json) list" where
  "opt_prop k f v = (case v of None \<Rightarrow> [] | Some x \<Rightarrow> [(k, f x)])"

definition lane_json :: "Lane \<Rightarrow> json" where
  "lane_json l = JObj [(''origin'', JStr (origin l)), (''destination'', JStr (destination l))]"

definition contact_json :: "Contact \<Rightarrow> json" where
  "contact_json c =
     JObj (opt_prop ''email'' JStr (email c) @ opt_prop ''phone'' JStr (phone c)
           @ opt_prop ''website'' JStr (website c))"

text \<open>The mapping of a document to \<^verbatim>\<open>CarrierOut\<close> with \<^verbatim>\<open>source: "db"\<close>.\<close>

definition db_out :: "CarrierDoc \<Rightarrow> CarrierOut" where
  "db_out c =
     JObj ([(''id'', JStr (d_id c)),
            (''name'', JStr (name c)),
            (''types'', JArr (map JStr (types c))),
            (''lanes'', JArr (map lane_json (lanes c)))]
           @ opt_prop ''description'' JStr (description c)
           @ opt_prop ''logoEmoji'' JStr (logoEmoji c)
           @ [(''verified'', JBool (verified c))]
           @ opt_prop ''rating'' JNum (rating c)
           @ opt_prop ''contact'' contact_json (contact c)
           @ [(''source'', JStr ''db'')])"

text \<open>The first element of \<^verbatim>\<open>h.split(",")\<close>.\<close>

definition split_comma_first :: "string \<Rightarrow> string" where
  "split_comma_first h = takeWhile (\<lambda>c. c \<noteq> CHR '','') h"

definition rateKey_of :: "request \<Rightarrow> string" where
  "rateKey_of req =
     or_else (map_option (\<lambda>h. trim (split_comma_first h)) (x_forwarded_for req))
       (or_else (cf_connecting_ip req) ''local'')"

text \<open>The response that carries the suggestions of \<^verbatim>\<open>aiFallback\<close> and a notice.\<close>

definition ai_response :: "CarrierOut list \<Rightarrow> string \<Rightarrow> int \<Rightarrow> response" where
  "ai_response suggestions notice duration =
     \<lparr>status = 200,
      json_body = JObj [(''carriers'', JArr []),
                        (''suggestions'', JArr suggestions),
                        (''usedAi'', JBool True),
                        (''notice'', JStr notice)],
      x_duration_ms = Some (String_of_int duration)\<rparr>"

definition notice_unavailable :: string where
  "notice_unavailable = ''Database unavailable. Showing unverified AI suggestions.''"

definition notice_none_found :: string where
  "notice_none_found =
     ''No verified carriers found for these filters. Showing unverified AI suggestions.''"

definition notice_query_error :: string where
  "notice_query_error =
     ''We hit an error querying the database. Showing unverified AI suggestions.''"

text \<open>
  \<^verbatim>\<open>POST(req)\<close> of the search route. \<open>Inl err\<close>: the promise rejects with
  \<open>err\<close>. The body is read before any \<^verbatim>\<open>try\<close>.
\<close>

definition POST :: "env \<Rightarrow> request \<Rightarrow> world \<Rightarrow> (error + response) \<times> world" where
  "POST e req w =
     (let (t0, w0) = DateNow (clock e) w in
      case body req of
        None \<Rightarrow> (Inl SyntaxError, w0)
      | Some b \<Rightarrow>
          let rateKey = rateKey_of req;
              p = \<lparr>p_type = b_type b, p_origin = b_origin b, p_destination = b_destination b\<rparr>
          in (case database e of
                ConnectFails \<Rightarrow>
                  let (suggestions, w1) = aiFallback e p rateKey w0;
                      (t1, w2) = DateNow (clock e) w1
                  in (Inr (ai_response suggestions notice_unavailable (t1 - t0)), w2)
              | FindFails \<Rightarrow>
                  let (suggestions, w1) = aiFallback e p rateKey w0;
                      (t1, w2) = DateNow (clock e) w1
                  in (Inr (ai_response suggestions notice_query_error (t1 - t0)), w2)
              | Collection docs \<Rightarrow>
                  let q = build_query b;
                      carriers = find_limit_50 q docs;
                      (t1, w1) = DateNow (clock e) w0
                  in if length carriers > 0
                     then (Inr \<lparr>status = 200,
                                json_body = JObj [(''carriers'', JArr (map db_out carriers)),
                                                  (''usedAi'', JBool False)],
                                x_duration_ms = Some (String_of_int (t1 - t0))\<rparr>, w1)
                     else
                       let (suggestions, w2) = aiFallback e p rateKey w1;
                           (t2, w3) = DateNow (clock e) w2
                       in (Inr (ai_response suggestions notice_none_found (t2 - t0)), w3)))"

section \<open>The contact handler\<close>

text \<open>
  \<^verbatim>\<open>/.+@.+\..+/.test(email)\<close>. A dot of the pattern matches any character but a
  line terminator, so the pattern matches somewhere in the text exactly when an
  \<^verbatim>\<open>@\<close> follows such a character and is followed by one or more of them, a full
  stop, and one more.
\<close>

definition dot_char :: "char \<Rightarrow> bool" where
  "dot_char c = (c \<noteq> CHR 0x0A \<and> c \<noteq> CHR 0x0D)"

definition isValidEmail :: "string \<Rightarrow> bool" where
  "isValidEmail s =
     list_ex (\<lambda>i. 1 \<le> i \<and> s ! i = CHR ''@'' \<and> dot_char (s ! (i - 1))
               \<and> list_ex (\<lambda>j. s ! j = CHR ''.''
                              \<and> list_all (\<lambda>k. dot_char (s ! k)) [i + 1..<j]
                              \<and> dot_char (s ! (j + 1)))
                     [i + 2..<length s - 1])
       [0..<length s]"

text \<open>\<^verbatim>\<open>input.replace(/[\u0000-\u001f\u007f-\u009f]/g, "").trim()\<close>.\<close>

definition is_control :: "char \<Rightarrow> bool" where
  "is_control c = (let n = (of_char c :: nat) in n \<le> 31 \<or> (127 \<le> n \<and> n \<le> 159))"

definition sanitize :: "string \<Rightarrow> string" where
  "sanitize input = trim (filter (\<lambda>c. \<not> is_control c) input)"

text \<open>
  \<^verbatim>\<open>rateLimit(key, limit = 5, windowMs = 60 * 60 * 1000)\<close> on the map
  \<^verbatim>\<open>attempts\<close>.
\<close>

definition rateLimit :: "(nat \<Rightarrow> int) \<Rightarrow> string \<Rightarrow> world \<Rightarrow> bool \<times> world" where
  "rateLimit clk key w =
     (let limit = 5;
          windowMs = 60 * 60 * 1000;
          (now, w1) = DateNow clk w
      in case attempts w1 key of
           None \<Rightarrow> (True, w1\<lparr>attempts := (attempts w1)(key \<mapsto> \<lparr>r_count = 1, ts = now\<rparr>)\<rparr>)
         | Some item \<Rightarrow>
             if now - ts item > windowMs
             then (True, w1\<lparr>attempts := (attempts w1)(key \<mapsto> \<lparr>r_count = 1, ts = now\<rparr>)\<rparr>)
             else if r_count item \<ge> limit then (False, w1)
             else (True, w1\<lparr>attempts := (attempts w1)(key \<mapsto> item\<lparr>r_count := r_count item + 1\<rparr>)\<rparr>))"

text \<open>
  The fields of the form as the body carries them; \<open>None\<close> is a field that the body
  does not have, which the destructuring replaces by its default.
\<close>

record contact_form =
  f_name :: "string option"
  f_email :: "string option"
  f_company :: "string option"
  f_phone :: "string option"
  f_subject :: "string option"
  f_message :: "string option"
  f_consent :: "bool option"
  f_companyWebsite :: "string option"

text \<open>
  A contact request: the \<^verbatim>\<open>x-forwarded-for\<close> header and the body, \<open>None\<close> when
  \<^verbatim>\<open>req.json()\<close> rejects.
\<close>

record contact_request =
  c_x_forwarded_for :: "string option"
  c_body :: "contact_form option"

text \<open>
  The environment of the contact route: the clock, the variables of
  \<^verbatim>\<open>process.env\<close> that it reads, and whether \<^verbatim>\<open>transporter.sendMail\<close> resolves
  for a message.
\<close>

record contact_env =
  c_clock :: "nat \<Rightarrow> int"
  ZOHO_USER :: "string option"
  ZOHO_PASS :: "string option"
  CONTACT_TO :: "string option"
  sendMail :: "mail \<Rightarrow> bool"

text \<open>\<^verbatim>\<open>v || d\<close> read as an optional value: \<open>None\<close> when it is falsy.\<close>

definition or_opt :: "string option \<Rightarrow> string option \<Rightarrow> string option" where
  "or_opt v d = (if truthy v then v else d)"

definition default_to :: "'a \<Rightarrow> 'a option \<Rightarrow> 'a" where
  "default_to d v = (case v of None \<Rightarrow> d | Some x \<Rightarrow> x)"

definition json_error :: "string \<Rightarrow> nat \<Rightarrow> response" where
  "json_error msg st = \<lparr>status = st, json_body = JObj [(''error'', JStr msg)], x_duration_ms = None\<rparr>"

definition json_ok :: response where
  "json_ok = \<lparr>status = 200, json_body = JObj [(''ok'', JBool True)], x_duration_ms = None\<rparr>"

text \<open>The dash of the subject line, as its UTF-8 bytes.\<close>

definition em_dash :: string where
  "em_dash = [char_of (226 :: nat), char_of (128 :: nat), char_of (148 :: nat)]"

text \<open>
  \<^verbatim>\<open>POST(req)\<close> of the contact route. The whole body of the handler is in one
  \<^verbatim>\<open>try\<close>, whose \<^verbatim>\<open>catch\<close> answers 500. The options of the SMTP transport
  and the HTML alternative of the message are left out: they repeat what the text
  alternative carries.
\<close>

definition contact_POST :: "contact_env \<Rightarrow> contact_request \<Rightarrow> world \<Rightarrow> response \<times> world" where
  "contact_POST e req w =
     (let ip = or_else (Some (split_comma_first (or_else (c_x_forwarded_for req) []))) ''unknown'';
          (allowed, w1) = rateLimit (c_clock e) ip w
      in if \<not> allowed then (json_error ''Too many requests. Please try again later.'' 429, w1)
         else
           (case c_body req of
              None \<Rightarrow> (json_error ''Failed to send message.'' 500, w1)
            | Some b \<Rightarrow>
                let name = default_to [] (f_name b);
                    email = default_to [] (f_email b);
                    company = default_to [] (f_company b);
                    phone = default_to [] (f_phone b);
                    subject = default_to ''General question'' (f_subject b);
                    message = default_to [] (f_message b);
                    consent = default_to False (f_consent b);
                    companyWebsite = default_to [] (f_companyWebsite b)
                in if companyWebsite \<noteq> [] then (json_ok, w1)
                   else
                     let v_name = take 80 (sanitize name);
                         v_email = take 120 (sanitize email);
                         v_company = take 120 (sanitize company);
                         v_phone = take 40 (sanitize phone);
                         v_subject = take 60 (sanitize subject);
                         v_message = take 2000 (sanitize message);
                         v_consent = consent
                     in if v_name = [] \<or> \<not> isValidEmail v_email \<or> v_message = [] \<or> \<not> v_consent
                        then (json_error ''Invalid form data.'' 400, w1)
                        else
                          let user = ZOHO_USER e;
                              pass = ZOHO_PASS e;
                              to = or_opt (CONTACT_TO e) user
                          in if \<not> truthy user \<or> \<not> truthy pass \<or> \<not> truthy to
                             then (json_error ''Email not configured on server.'' 500, w1)
                             else
                               let m = \<lparr>m_from = ''LaneList Contact <'' @ the user @ ''>'',
                                        m_to = the to,
                                        m_replyTo = v_email,
                                        m_subject = ''[LaneList] '' @ v_subject @ '' '' @ em_dash @ '' '' @ v_name,
                                        m_text = ''Name: '' @ v_name @ [CHR 0x0A]
                                                 @ ''Email: '' @ v_email @ [CHR 0x0A]
                                                 @ ''Company: '' @ v_company @ [CHR 0x0A]
                                                 @ ''Phone: '' @ v_phone @ [CHR 0x0A]
                                                 @ ''Subject: '' @ v_subject @ [CHR 0x0A, CHR 0x0A]
                                                 @ ''Message:'' @ [CHR 0x0A] @ v_message\<rparr>;
                                   w2 = w1\<lparr>sent := sent w1 @ [m]\<rparr>
                               in if sendMail e m then (json_ok, w2)
                                  else (json_error ''Failed to send message.'' 500, w2)))"

text \<open>The state of a process that has just started.\<close>

definition world0 :: world where
  "world0 = \<lparr>aiBucket = Map.empty, attempts = Map.empty, ticks = 0, calls = [], sent = []\<rparr>"

section \<open>Notions used in the statements\<close>

text \<open>
  A call of \<^verbatim>\<open>allowAiCall\<close> for a key opens a window when the key has no bucket
  yet, or when the window of its bucket has elapsed at the time of the call.
\<close>

definition opens_window :: "(nat \<Rightarrow> int) \<Rightarrow> string \<Rightarrow> world \<Rightarrow> bool" where
  "opens_window clk key w =
     (case aiBucket w key of None \<Rightarrow> True | Some b \<Rightarrow> clk (ticks w) - since b > aiWindowMs)"

text \<open>\<^verbatim>\<open>x[k]\<close> on a JSON value: the property \<open>k\<close> of an object, if it has one.\<close>

definition get_prop :: "string \<Rightarrow> json \<Rightarrow> json option" where
  "get_prop k x = (case x of JObj kvs \<Rightarrow> map_of kvs k | _ \<Rightarrow> None)"

text \<open>An object without its property \<open>k\<close>.\<close>

definition without :: "string \<Rightarrow> json \<Rightarrow> json" where
  "without k x = (case x of JObj kvs \<Rightarrow> JObj (filter (\<lambda>kv. fst kv \<noteq> k) kvs) | _ \<Rightarrow> x)"

text \<open>How many of \<^verbatim>\<open>type\<close>, \<^verbatim>\<open>origin\<close> and \<^verbatim>\<open>destination\<close> are supplied.\<close>

definition filled :: "params \<Rightarrow> nat" where
  "filled p = length (filter truthy [p_type p, p_origin p, p_destination p])"

text \<open>
  The environment that the tests of the search route set up before each case:
  \<^verbatim>\<open>AI_FALLBACK_ENABLED = "false"\<close> and no \<^verbatim>\<open>OPENAI_API_KEY\<close>.
\<close>

definition test_env :: "db_state \<Rightarrow> env" where
  "test_env db =
     \<lparr>clock = (\<lambda>k. 1000 * int k),
      env_OPENAI_API_KEY = None,
      env_AI_FALLBACK_ENABLED = Some ''false'',
      JSON_parse = (\<lambda>s. None),
      create = (\<lambda>s. Rejected),
      database = db\<rparr>"

text \<open>
  The environment of \<^verbatim>\<open>jest.setup.ts\<close> with the mocked provider: the key is
  \<^verbatim>\<open>test-key\<close>, the fallback is enabled, and every call of \<^verbatim>\<open>create\<close> resolves
  to one function tool call whose arguments are \<^verbatim>\<open>JSON.stringify({ items: [] })\<close>.
\<close>

definition mock_env :: "db_state \<Rightarrow> env" where
  "mock_env db =
     \<lparr>clock = (\<lambda>k. 1000 * int k),
      env_OPENAI_API_KEY = Some ''test-key'',
      env_AI_FALLBACK_ENABLED = Some ''true'',
      JSON_parse = (\<lambda>s. if s = empty_items_text then Some (JObj [(''items'', JArr [])]) else None),
      create = (\<lambda>s. Resolved [\<lparr>content = None,
                                 tool_calls = Some [\<lparr>tc_type = ''function'', arguments = empty_items_text\<rparr>]\<rparr>]),
      database = db\<rparr>"

text \<open>The filters \<^verbatim>\<open>{ type: "truck", origin: "FR", destination: "DE" }\<close> of the tests.\<close>

definition truck_FR_DE :: params where
  "truck_FR_DE = \<lparr>p_type = Some ''truck'', p_origin = Some ''FR'', p_destination = Some ''DE''\<rparr>"

text \<open>
  The payload that the \<^verbatim>\<open>try\<close> block of a strategy gets from the provider and
  parses, if the call resolves, the text is there and \<^verbatim>\<open>JSON.parse\<close> accepts it.
\<close>

definition strategy_payload :: "env \<Rightarrow> strategy \<Rightarrow> json option" where
  "strategy_payload e s =
     (case create e s of
        Rejected \<Rightarrow> None
      | Resolved completion \<Rightarrow>
          (case s of
             Tools \<Rightarrow>
               (case find (\<lambda>tc. tc_type tc = ''function'')
                       (case completion of
                          [] \<Rightarrow> []
                        | m # _ \<Rightarrow> (case tool_calls m of None \<Rightarrow> [] | Some tcs \<Rightarrow> tcs)) of
                  None \<Rightarrow> None
                | Some fnCall \<Rightarrow>
                    if arguments fnCall = [] then None else JSON_parse e (arguments fnCall))
           | _ \<Rightarrow> JSON_parse e (sanitizeJsonString (content_of completion))))"

text \<open>
  The suggestions that a strategy yields: the mapped items of its payload, when the
  payload is valid and has an item.
\<close>

definition strategy_items :: "env \<Rightarrow> strategy \<Rightarrow> CarrierOut list option" where
  "strategy_items e s =
     (case strategy_payload e s of
        None \<Rightarrow> None
      | Some d \<Rightarrow>
          if fst (validateCarriers d) \<and> mapped_of (fst (snd (validateCarriers d))) \<noteq> []
          then Some (mapped_of (fst (snd (validateCarriers d)))) else None)"

text \<open>All four guardrail gates of \<^verbatim>\<open>aiFallback\<close> pass.\<close>

definition gates_pass :: "env \<Rightarrow> params \<Rightarrow> string \<Rightarrow> world \<Rightarrow> bool" where
  "gates_pass e p rateKey w =
     (AI_FALLBACK_ENABLED e = ''true'' \<and> 2 \<le> filled p
      \<and> fst (allowAiCall (clock e) rateKey w) \<and> truthy (OPENAI_API_KEY e))"

text \<open>
  A result of \<^verbatim>\<open>aiFallback\<close> is what \<^verbatim>\<open>stubSuggestion\<close> returns in some
  world, or its list is what one of the strategies yields.
\<close>

definition from_stub_or_strategy :: "env \<Rightarrow> params \<Rightarrow> CarrierOut list \<times> world \<Rightarrow> bool" where
  "from_stub_or_strategy e p r =
     ((\<exists>w'. r = stubSuggestion (clock e) p w') \<or> (\<exists>s. strategy_items e s = Some (fst r)))"

text \<open>
  A JSON value satisfies a schema and has no property beyond those that the schema
  lists: the reading of JSON Schema with \<^verbatim>\<open>additionalProperties: false\<close> on every
  object, as in \<^verbatim>\<open>carriersJsonSchema\<close>.
\<close>

fun satisfies :: "schema \<Rightarrow> json \<Rightarrow> bool" where
  "satisfies s JNull = nullable s"
| "satisfies s (JBool b) = False"
| "satisfies s (JNum n) = False"
| "satisfies s (JStr x) =
     (stype s = TString \<and> (case enum s of None \<Rightarrow> True | Some vs \<Rightarrow> x \<in> set vs))"
| "satisfies s (JArr xs) =
     (stype s = TArray \<and> (case items s of None \<Rightarrow> True | Some si \<Rightarrow> list_all (satisfies si) xs))"
| "satisfies s (JObj kvs) =
     (stype s = TObject
      \<and> list_all (\<lambda>k. k \<in> fst ` set kvs) (required s)
      \<and> list_all (\<lambda>kv. case map_of (properties s) (fst kv) of
                           None \<Rightarrow> False
                         | Some sk \<Rightarrow> satisfies sk (snd kv)) kvs)"

text \<open>A JSON string.\<close>

definition is_string :: "json \<Rightarrow> bool" where
  "is_string v = (case v of JStr _ \<Rightarrow> True | _ \<Rightarrow> False)"

text \<open>
  Injecting a property into a payload: \<open>add_prop n k v\<close> puts the property \<open>k\<close> with
  the value \<open>v\<close> into an object, before its \<open>n\<close>-th property; \<open>at_index i f\<close> changes
  the \<open>i\<close>-th element of an array by \<open>f\<close>, and \<open>at_key k f\<close> the property \<open>k\<close> of an
  object.
\<close>

definition add_prop :: "nat \<Rightarrow> string \<Rightarrow> json \<Rightarrow> json \<Rightarrow> json" where
  "add_prop n k v x = (case x of JObj kvs \<Rightarrow> JObj (take n kvs @ (k, v) # drop n kvs) | _ \<Rightarrow> x)"

definition at_index :: "nat \<Rightarrow> (json \<Rightarrow> json) \<Rightarrow> json \<Rightarrow> json" where
  "at_index i f x =
     (case x of JArr xs \<Rightarrow> if i < length xs then JArr (xs[i := f (xs ! i)]) else x | _ \<Rightarrow> x)"

definition at_key :: "string \<Rightarrow> (json \<Rightarrow> json) \<Rightarrow> json \<Rightarrow> json" where
  "at_key k f x =
     (case x of JObj kvs \<Rightarrow> JObj (map (\<lambda>kv. if fst kv = k then (k, f (snd kv)) else kv) kvs) | _ \<Rightarrow> x)"

text \<open>An item that is an object without the property \<^verbatim>\<open>lanes\<close>.\<close>

definition missing_lanes :: "json \<Rightarrow> bool" where
  "missing_lanes x = (case x of JObj kvs \<Rightarrow> ''lanes'' \<notin> fst ` set kvs | _ \<Rightarrow> False)"

text \<open>A payload with one carrier, and a contact block to inject into it.\<close>

definition sample_item :: json where
  "sample_item =
     JObj [(''id'', JStr ''c1''),
           (''name'', JStr ''Alpine Logistics''),
           (''types'', JArr [JStr ''truck'']),
           (''lanes'', JArr [JObj [(''origin'', JStr ''FR''), (''destination'', JStr ''DE'')]]),
           (''description'', JStr ''test'')]"

definition sample_contact :: json where
  "sample_contact = JObj [(''email'', JStr ''sales@alpine.example'')]"

definition sample_payload :: json where
  "sample_payload = JObj [(''items'', JArr [sample_item])]"










text \<open>
  The filters of a search request as a conjunction over the supplied fields: a
  document matches when it matches every field that is supplied (a non-empty string,
  or \<^verbatim>\<open>verifiedOnly\<close> true), and a field that is not supplied imposes no
  constraint. A lane field is matched by some lane of the carrier.
\<close>

definition spec_matches :: "search_body \<Rightarrow> CarrierDoc \<Rightarrow> bool" where
  "spec_matches b c =
     ((truthy (b_type b) \<longrightarrow> the (b_type b) \<in> set (types c))
      \<and> (truthy (b_origin b) \<longrightarrow> (\<exists>l\<in>set (lanes c). origin l = the (b_origin b)))
      \<and> (truthy (b_destination b) \<longrightarrow> (\<exists>l\<in>set (lanes c). destination l = the (b_destination b)))
      \<and> (b_verifiedOnly b = Some True \<longrightarrow> verified c))"

text \<open>The \<^verbatim>\<open>{ type, origin, destination }\<close> that the handler passes to \<^verbatim>\<open>aiFallback\<close>.\<close>

definition params_of :: "search_body \<Rightarrow> params" where
  "params_of b = \<lparr>p_type = b_type b, p_origin = b_origin b, p_destination = b_destination b\<rparr>"

text \<open>
  The carrier, less its glyph, and the request of the test "returns DB carriers when
  found".
\<close>

definition alpine :: CarrierDoc where
  "alpine =
     \<lparr>d_id = ''1'', name = ''Alpine Logistics'', verified = True, rating = None,
      types = [''truck''], lanes = [\<lparr>origin = ''FR'', destination = ''DE''\<rparr>],
      description = Some ''test'', contact = None, logoEmoji = None\<rparr>"

definition truck_request :: request where
  "truck_request =
     \<lparr>body = Some \<lparr>b_type = Some ''truck'', b_origin = None, b_destination = None,
                    b_verifiedOnly = None\<rparr>,
      x_forwarded_for = None, cf_connecting_ip = None\<rparr>"

text \<open>The key under which the contact handler counts a request.\<close>

definition contact_ip :: "contact_request \<Rightarrow> string" where
  "contact_ip req = or_else (Some (split_comma_first (or_else (c_x_forwarded_for req) []))) ''unknown''"

text \<open>
  A configured mail environment, and a request whose honeypot field is filled while
  its other fields would not pass the validation.
\<close>

definition contact_env0 :: contact_env where
  "contact_env0 =
     \<lparr>c_clock = (\<lambda>k. 1000 * int k), ZOHO_USER = Some ''hello@lanelist.example'',
      ZOHO_PASS = Some ''secret'', CONTACT_TO = None, sendMail = (\<lambda>m. True)\<rparr>"

definition honeypot_request :: contact_request where
  "honeypot_request =
     \<lparr>c_x_forwarded_for = Some ''203.0.113.7, 10.0.0.1'',
      c_body = Some \<lparr>f_name = Some ''Bot'', f_email = Some ''not an address'', f_company = None,
                      f_phone = None, f_subject = None, f_message = None, f_consent = None,
                      f_companyWebsite = Some ''http://spam.example''\<rparr>\<rparr>"

section \<open>The rate limiter\<close>

lemma allowAiCall_unfold:
  "allowAiCall clk key w =
     (let now = clk (ticks w);
          b = (case aiBucket w key of None \<Rightarrow> \<lparr>count = 0, since = now\<rparr> | Some b0 \<Rightarrow> b0);
          elapsed = (now - since b > aiWindowMs);
          c = (if elapsed then 0 else count b) + 1;
          s = (if elapsed then now else since b)
      in (c \<le> aiMaxCalls,
          w\<lparr>aiBucket := (aiBucket w)(key \<mapsto> \<lparr>count = c, since = s\<rparr>), ticks := ticks w + 1\<rparr>))"
proof (cases "aiBucket w key")
  case None
  then show ?thesis by (simp add: allowAiCall_def DateNow_def Let_def aiWindowMs_def)
next
  case (Some b)
  then show ?thesis by (cases b) (simp add: allowAiCall_def DateNow_def Let_def)
qed

lemma allowAiCalls_in_window:
  "aiBucket w key = Some \<lparr>count = c, since = s\<rparr> \<Longrightarrow>
   (\<forall>i<n. clk (ticks w + i) - s \<le> aiWindowMs) \<Longrightarrow>
   allowAiCalls clk key n w =
     (map (\<lambda>i. c + i < aiMaxCalls) [0..<n],
      w\<lparr>aiBucket := (aiBucket w)(key \<mapsto> \<lparr>count = c + n, since = s\<rparr>), ticks := ticks w + n\<rparr>)"
proof (induction n arbitrary: w c)
  case 0
  then show ?case by (simp add: map_upd_triv)
next
  case (Suc n)
  from Suc.prems(2) have now: "clk (ticks w) - s \<le> aiWindowMs" by force
  let ?w1 = "w\<lparr>aiBucket := (aiBucket w)(key \<mapsto> \<lparr>count = Suc c, since = s\<rparr>), ticks := ticks w + 1\<rparr>"
  have step: "allowAiCall clk key w = (c < aiMaxCalls, ?w1)"
    using Suc.prems(1) now by (auto simp add: allowAiCall_unfold Let_def)
  have b1: "aiBucket ?w1 key = Some \<lparr>count = Suc c, since = s\<rparr>" by simp
  have win: "\<forall>i<n. clk (ticks ?w1 + i) - s \<le> aiWindowMs"
  proof (intro allI impI)
    fix i assume "i < n"
    then have "clk (ticks w + Suc i) - s \<le> aiWindowMs" using Suc.prems(2) by auto
    then show "clk (ticks ?w1 + i) - s \<le> aiWindowMs" by simp
  qed
  have rest: "allowAiCalls clk key n ?w1 =
     (map (\<lambda>i. Suc c + i < aiMaxCalls) [0..<n],
      ?w1\<lparr>aiBucket := (aiBucket ?w1)(key \<mapsto> \<lparr>count = Suc c + n, since = s\<rparr>), ticks := ticks ?w1 + n\<rparr>)"
    by (rule Suc.IH [OF b1 win])
  have m: "map (\<lambda>i. c + i < aiMaxCalls) [0..<Suc n] = (c < aiMaxCalls) # map (\<lambda>i. Suc c + i < aiMaxCalls) [0..<n]"
    by (simp add: upt_conv_Cons map_Suc_upt [symmetric] del: upt_Suc)
  have "allowAiCalls clk key (Suc n) w =
     ((c < aiMaxCalls) # map (\<lambda>i. Suc c + i < aiMaxCalls) [0..<n],
      ?w1\<lparr>aiBucket := (aiBucket ?w1)(key \<mapsto> \<lparr>count = Suc c + n, since = s\<rparr>), ticks := ticks ?w1 + n\<rparr>)"
    by (simp only: allowAiCalls.simps step rest Let_def prod.case)
  also have "\<dots> = (map (\<lambda>i. c + i < aiMaxCalls) [0..<Suc n],
      w\<lparr>aiBucket := (aiBucket w)(key \<mapsto> \<lparr>count = c + Suc n, since = s\<rparr>), ticks := ticks w + Suc n\<rparr>)"
    unfolding m by simp
  finally show ?case .
qed


lemma allowAiCall_opens:
  assumes "opens_window clk key w"
  shows "allowAiCall clk key w =
     (True, w\<lparr>aiBucket := (aiBucket w)(key \<mapsto> \<lparr>count = Suc 0, since = clk (ticks w)\<rparr>), ticks := ticks w + 1\<rparr>)"
  using assms
  by (auto simp add: opens_window_def allowAiCall_unfold Let_def aiMaxCalls_def split: option.splits)

lemma allowAiCalls_from_opening:
  assumes opens: "opens_window clk key w"
      and window: "\<forall>i<n. clk (ticks w + i) - clk (ticks w) \<le> aiWindowMs"
      and pos: "0 < n"
  shows "allowAiCalls clk key n w =
     (map (\<lambda>i. i < aiMaxCalls) [0..<n],
      w\<lparr>aiBucket := (aiBucket w)(key \<mapsto> \<lparr>count = n, since = clk (ticks w)\<rparr>), ticks := ticks w + n\<rparr>)"
proof -
  from pos obtain m where n: "n = Suc m" by (cases n) auto
  let ?s = "clk (ticks w)"
  let ?w1 = "w\<lparr>aiBucket := (aiBucket w)(key \<mapsto> \<lparr>count = Suc 0, since = ?s\<rparr>), ticks := ticks w + 1\<rparr>"
  have step: "allowAiCall clk key w = (True, ?w1)"
    by (rule allowAiCall_opens [OF opens])
  have b1: "aiBucket ?w1 key = Some \<lparr>count = Suc 0, since = ?s\<rparr>" by simp
  have win: "\<forall>i<m. clk (ticks ?w1 + i) - ?s \<le> aiWindowMs"
  proof (intro allI impI)
    fix i assume "i < m"
    then have "clk (ticks w + Suc i) - ?s \<le> aiWindowMs" using window n by auto
    then show "clk (ticks ?w1 + i) - ?s \<le> aiWindowMs" by simp
  qed
  have rest: "allowAiCalls clk key m ?w1 =
     (map (\<lambda>i. Suc 0 + i < aiMaxCalls) [0..<m],
      ?w1\<lparr>aiBucket := (aiBucket ?w1)(key \<mapsto> \<lparr>count = Suc 0 + m, since = ?s\<rparr>), ticks := ticks ?w1 + m\<rparr>)"
    by (rule allowAiCalls_in_window [OF b1 win])
  have m: "map (\<lambda>i. i < aiMaxCalls) [0..<Suc m] = True # map (\<lambda>i. Suc 0 + i < aiMaxCalls) [0..<m]"
    by (simp add: upt_conv_Cons map_Suc_upt [symmetric] aiMaxCalls_def del: upt_Suc)
  have "allowAiCalls clk key (Suc m) w =
     (True # map (\<lambda>i. Suc 0 + i < aiMaxCalls) [0..<m],
      ?w1\<lparr>aiBucket := (aiBucket ?w1)(key \<mapsto> \<lparr>count = Suc 0 + m, since = ?s\<rparr>), ticks := ticks ?w1 + m\<rparr>)"
    by (simp only: allowAiCalls.simps step rest Let_def prod.case)
  also have "\<dots> = (map (\<lambda>i. i < aiMaxCalls) [0..<Suc m],
      w\<lparr>aiBucket := (aiBucket w)(key \<mapsto> \<lparr>count = Suc m, since = ?s\<rparr>), ticks := ticks w + Suc m\<rparr>)"
    unfolding m by simp
  finally show ?thesis unfolding n .
qed

text \<open>
  C5. A call resets the count and the window start of its key when strictly more than
  60,000 ms have passed since the stored window start, then increments the count, and
  is allowed exactly when the new count is at most 20. So, of \<open>n\<close> calls in a row for
  one key, the first of which opens a window and all of which fall within 60,000 ms of
  it, the first 20 are allowed and all later ones are denied; and a call made after the
  window has elapsed is allowed again.
\<close>

theorem allowAiCall_rate_limit:
  assumes opens: "opens_window clk key w"
      and window: "\<forall>i<n. clk (ticks w + i) - clk (ticks w) \<le> 60000"
  shows "allowAiCall clk k w0 =
           (let now = clk (ticks w0);
                b = (case aiBucket w0 k of None \<Rightarrow> \<lparr>count = 0, since = now\<rparr> | Some b0 \<Rightarrow> b0);
                elapsed = (now - since b > 60000);
                c = (if elapsed then 0 else count b) + 1;
                s = (if elapsed then now else since b)
            in (c \<le> 20,
                w0\<lparr>aiBucket := (aiBucket w0)(k \<mapsto> \<lparr>count = c, since = s\<rparr>), ticks := ticks w0 + 1\<rparr>))
         \<and> fst (allowAiCalls clk key n w) = map (\<lambda>i. i < 20) [0..<n]
         \<and> (0 < n \<and> clk (ticks w + n) - clk (ticks w) > 60000 \<longrightarrow>
              fst (allowAiCall clk key (snd (allowAiCalls clk key n w))))"
proof (intro conjI impI)
  show "allowAiCall clk k w0 =
           (let now = clk (ticks w0);
                b = (case aiBucket w0 k of None \<Rightarrow> \<lparr>count = 0, since = now\<rparr> | Some b0 \<Rightarrow> b0);
                elapsed = (now - since b > 60000);
                c = (if elapsed then 0 else count b) + 1;
                s = (if elapsed then now else since b)
            in (c \<le> 20,
                w0\<lparr>aiBucket := (aiBucket w0)(k \<mapsto> \<lparr>count = c, since = s\<rparr>), ticks := ticks w0 + 1\<rparr>))"
    using allowAiCall_unfold [of clk k w0] by (simp add: aiWindowMs_def aiMaxCalls_def)
next
  have window': "\<forall>i<n. clk (ticks w + i) - clk (ticks w) \<le> aiWindowMs"
    using window by (simp add: aiWindowMs_def)
  show "fst (allowAiCalls clk key n w) = map (\<lambda>i. i < 20) [0..<n]"
  proof (cases n)
    case 0
    then show ?thesis by simp
  next
    case (Suc m)
    then have "0 < n" by simp
    from allowAiCalls_from_opening [OF opens window' this]
    show ?thesis by (simp add: aiMaxCalls_def)
  qed
  assume after: "0 < n \<and> clk (ticks w + n) - clk (ticks w) > 60000"
  then have "0 < n" by simp
  from allowAiCalls_from_opening [OF opens window' this]
  have w': "snd (allowAiCalls clk key n w) =
      w\<lparr>aiBucket := (aiBucket w)(key \<mapsto> \<lparr>count = n, since = clk (ticks w)\<rparr>), ticks := ticks w + n\<rparr>"
    by simp
  show "fst (allowAiCall clk key (snd (allowAiCalls clk key n w)))"
    unfolding w' using after
    by (simp add: allowAiCall_unfold Let_def aiWindowMs_def aiMaxCalls_def)
qed

theorem allowAiCall_rate_limit_witness:
  "fst (allowAiCalls (\<lambda>k. 1000 * int k) ''203.0.113.7'' 22 world0)
     = replicate 20 True @ [False, False]"
proof -
  have o: "opens_window (\<lambda>k. 1000 * int k) ''203.0.113.7'' world0"
    by (simp add: opens_window_def world0_def)
  have h: "\<forall>i<22. (\<lambda>k. 1000 * int k) (ticks world0 + i) - (\<lambda>k. 1000 * int k) (ticks world0) \<le> 60000"
    by (simp add: world0_def)
  have m: "map (\<lambda>i. i < (20::nat)) [0..<22] = replicate 20 True @ [False, False]"
    by code_simp
  from allowAiCall_rate_limit [OF o h] m show ?thesis by simp
qed

section \<open>The stub\<close>

lemma or_else_if: "or_else v d = (if truthy v then the v else d)"
  by (simp add: or_else_def truthy_def split: option.splits)

lemma stubSuggestion_snd: "snd (stubSuggestion clk p w) = w\<lparr>ticks := ticks w + 1\<rparr>"
  by (simp add: stubSuggestion_def DateNow_def)

lemma stubSuggestion_length: "length (fst (stubSuggestion clk p w)) = 1"
  by (simp add: stubSuggestion_def DateNow_def)

text \<open>
  C9. For every filter, \<^verbatim>\<open>stubSuggestion\<close> returns exactly one item and does nothing
  but read the clock once. The item is unverified; its types are the type of the filter
  in a singleton list, or \<^verbatim>\<open>truck\<close> when the type is absent (undefined or empty);
  its only lane has the origin and the destination of the filter, or \<^verbatim>\<open>FR\<close> and
  \<^verbatim>\<open>ES\<close> when they are absent; its confidence is 0.55. Its id is
  \<^verbatim>\<open>ai-stub-\<close> followed by the time, and without the id the output is the same
  for every clock and every world.
\<close>

theorem stubSuggestion_spec:
  "\<exists>item. stubSuggestion clk p w = ([item], w\<lparr>ticks := ticks w + 1\<rparr>)
     \<and> get_prop ''id'' item = Some (JStr (''ai-stub-'' @ String_of_int (clk (ticks w))))
     \<and> get_prop ''verified'' item = Some (JBool False)
     \<and> get_prop ''types'' item = Some (JArr [JStr (if truthy (p_type p) then the (p_type p) else ''truck'')])
     \<and> get_prop ''lanes'' item =
          Some (JArr [JObj [(''origin'', JStr (if truthy (p_origin p) then the (p_origin p) else ''FR'')),
                            (''destination'', JStr (if truthy (p_destination p) then the (p_destination p) else ''ES''))]])
     \<and> get_prop ''confidence'' item = Some (JNum (55 / 100))
     \<and> map (without ''id'') (fst (stubSuggestion clk' p w')) = [without ''id'' item]"
  by (simp add: stubSuggestion_def DateNow_def get_prop_def without_def or_else_if)

section \<open>The guardrail gates\<close>

lemma stubSuggestion_calls [simp]: "calls (snd (stubSuggestion clk p w)) = calls w"
  by (simp add: stubSuggestion_snd)

lemma stubSuggestion_aiBucket [simp]: "aiBucket (snd (stubSuggestion clk p w)) = aiBucket w"
  by (simp add: stubSuggestion_snd)

lemma stubSuggestion_nonempty [simp]: "fst (stubSuggestion clk p w) \<noteq> []"
  by (simp add: stubSuggestion_def DateNow_def)

lemma allowAiCall_calls [simp]: "calls (snd (allowAiCall clk k w)) = calls w"
  by (simp add: allowAiCall_def DateNow_def Let_def split: option.splits)

lemma aiFallback_toggle_off:
  "AI_FALLBACK_ENABLED e \<noteq> ''true'' \<Longrightarrow> aiFallback e p k w = stubSuggestion (clock e) p w"
  by (simp add: aiFallback_def)

lemma aiFallback_underspecified:
  "filled p < 2 \<Longrightarrow> aiFallback e p k w = stubSuggestion (clock e) p w"
  by (simp add: aiFallback_def filled_def MIN_FILTERS_FOR_AI_def Let_def)

lemma aiFallback_rate_limited:
  "AI_FALLBACK_ENABLED e = ''true'' \<Longrightarrow> 2 \<le> filled p \<Longrightarrow> \<not> fst (allowAiCall (clock e) k w) \<Longrightarrow>
   aiFallback e p k w = stubSuggestion (clock e) p (snd (allowAiCall (clock e) k w))"
  by (simp add: aiFallback_def filled_def MIN_FILTERS_FOR_AI_def Let_def case_prod_beta)

lemma aiFallback_no_key:
  "AI_FALLBACK_ENABLED e = ''true'' \<Longrightarrow> 2 \<le> filled p \<Longrightarrow> fst (allowAiCall (clock e) k w) \<Longrightarrow>
   \<not> truthy (OPENAI_API_KEY e) \<Longrightarrow>
   aiFallback e p k w = stubSuggestion (clock e) p (snd (allowAiCall (clock e) k w))"
  by (simp add: aiFallback_def filled_def MIN_FILTERS_FOR_AI_def Let_def case_prod_beta)

lemma aiFallback_gates_pass:
  "gates_pass e p k w \<Longrightarrow>
   aiFallback e p k w =
     (case tryTools e p (snd (allowAiCall (clock e) k w)) of
        (Inr out, w2) \<Rightarrow> (out, w2)
      | (Inl err, w2) \<Rightarrow>
          (case trySchema e p w2 of
             (Inr out, w3) \<Rightarrow> (out, w3)
           | (Inl err, w3) \<Rightarrow>
               (case tryObject e p w3 of
                  (Inr out, w4) \<Rightarrow> (out, w4)
                | (Inl e2, w4) \<Rightarrow> stubSuggestion (clock e) p w4)))"
  by (simp add: gates_pass_def aiFallback_def filled_def MIN_FILTERS_FOR_AI_def Let_def case_prod_beta)

text \<open>
  C6. The gates of \<^verbatim>\<open>aiFallback\<close> are evaluated in the order toggle, filter count,
  rate limit, credential, and each failing gate returns the stub. With the toggle off
  the stub is returned whatever the filters, the rate-limit state and the key are, and
  the world only loses one clock reading; the same holds with fewer than 2 of type,
  origin and destination supplied. The rate limiter is consulted only after these two
  gates and before the key is looked at. Whenever a gate fails the provider is not
  called.
\<close>

theorem aiFallback_gates:
  "(AI_FALLBACK_ENABLED e \<noteq> ''true'' \<longrightarrow>
      aiFallback e p k w = stubSuggestion (clock e) p w
      \<and> snd (aiFallback e p k w) = w\<lparr>ticks := ticks w + 1\<rparr>)
   \<and> (filled p < 2 \<longrightarrow>
      aiFallback e p k w = stubSuggestion (clock e) p w
      \<and> snd (aiFallback e p k w) = w\<lparr>ticks := ticks w + 1\<rparr>)
   \<and> (AI_FALLBACK_ENABLED e = ''true'' \<and> 2 \<le> filled p \<and> \<not> fst (allowAiCall (clock e) k w) \<longrightarrow>
      aiFallback e p k w = stubSuggestion (clock e) p (snd (allowAiCall (clock e) k w)))
   \<and> (AI_FALLBACK_ENABLED e = ''true'' \<and> 2 \<le> filled p \<and> fst (allowAiCall (clock e) k w)
        \<and> \<not> truthy (OPENAI_API_KEY e) \<longrightarrow>
      aiFallback e p k w = stubSuggestion (clock e) p (snd (allowAiCall (clock e) k w)))
   \<and> (\<not> gates_pass e p k w \<longrightarrow> calls (snd (aiFallback e p k w)) = calls w)"
proof (intro conjI impI)
  assume "\<not> gates_pass e p k w"
  then consider "AI_FALLBACK_ENABLED e \<noteq> ''true''" | "filled p < 2"
    | "AI_FALLBACK_ENABLED e = ''true''" "2 \<le> filled p" "\<not> fst (allowAiCall (clock e) k w)"
    | "AI_FALLBACK_ENABLED e = ''true''" "2 \<le> filled p" "fst (allowAiCall (clock e) k w)"
      "\<not> truthy (OPENAI_API_KEY e)"
    unfolding gates_pass_def by fastforce
  then show "calls (snd (aiFallback e p k w)) = calls w"
  proof cases
    case 1 then show ?thesis by (simp add: aiFallback_toggle_off)
  next
    case 2 then show ?thesis by (simp add: aiFallback_underspecified)
  next
    case 3 then show ?thesis by (simp add: aiFallback_rate_limited)
  next
    case 4 then show ?thesis by (simp add: aiFallback_no_key)
  qed
qed (simp_all add: aiFallback_toggle_off aiFallback_underspecified aiFallback_rate_limited
       aiFallback_no_key stubSuggestion_snd)

theorem aiFallback_gates_witness:
  "aiFallback (test_env (Collection [])) truck_FR_DE ''local'' world0
     = stubSuggestion (\<lambda>k. 1000 * int k) truck_FR_DE world0
   \<and> calls (snd (aiFallback (test_env (Collection [])) truck_FR_DE ''local'' world0)) = []"
proof -
  have off: "AI_FALLBACK_ENABLED (test_env (Collection [])) \<noteq> ''true''"
    by (simp add: AI_FALLBACK_ENABLED_def test_env_def)
  then have "\<not> gates_pass (test_env (Collection [])) truck_FR_DE ''local'' world0"
    by (simp add: gates_pass_def)
  with off aiFallback_gates [of "test_env (Collection [])" truck_FR_DE "''local''" world0]
  show ?thesis by (simp add: test_env_def world0_def)
qed

section \<open>The fallback never returns an empty list\<close>

lemma from_stub [simp]: "from_stub_or_strategy e p (stubSuggestion (clock e) p w)"
  unfolding from_stub_or_strategy_def by blast

lemma from_strategy: "strategy_items e s = Some out \<Longrightarrow> from_stub_or_strategy e p (out, w)"
  unfolding from_stub_or_strategy_def by auto

lemma tryTools_calls [simp]: "calls (snd (tryTools e p w)) = calls w @ [Tools]"
  unfolding tryTools_def
  by (simp add: Let_def case_prod_beta split: promise.splits option.splits)

lemma trySchema_calls [simp]: "calls (snd (trySchema e p w)) = calls w @ [JsonSchema]"
  unfolding trySchema_def
  by (simp add: Let_def case_prod_beta split: promise.splits option.splits)

lemma tryObject_calls [simp]: "calls (snd (tryObject e p w)) = calls w @ [JsonObject]"
  unfolding tryObject_def
  by (simp add: Let_def case_prod_beta split: promise.splits option.splits)

lemma strategy_items_nonempty: "strategy_items e s = Some out \<Longrightarrow> out \<noteq> []"
  by (auto simp add: strategy_items_def split: option.splits if_splits)

lemma tryTools_cases:
  "fst (tryTools e p w) = Inr out \<Longrightarrow>
   (out, snd (tryTools e p w)) = stubSuggestion (clock e) p (w\<lparr>calls := calls w @ [Tools]\<rparr>)
   \<or> strategy_items e Tools = Some out"
  unfolding tryTools_def
  by (auto simp add: Let_def case_prod_beta strategy_items_def strategy_payload_def
      split: promise.splits option.splits if_splits)

lemma trySchema_cases:
  "fst (trySchema e p w) = Inr out \<Longrightarrow>
   (out, snd (trySchema e p w)) = stubSuggestion (clock e) p (w\<lparr>calls := calls w @ [JsonSchema]\<rparr>)
   \<or> strategy_items e JsonSchema = Some out"
  unfolding trySchema_def
  by (auto simp add: Let_def case_prod_beta strategy_items_def strategy_payload_def
      split: promise.splits option.splits if_splits)

lemma tryObject_cases:
  "fst (tryObject e p w) = Inr out \<Longrightarrow>
   (out, snd (tryObject e p w)) = stubSuggestion (clock e) p (w\<lparr>calls := calls w @ [JsonObject]\<rparr>)
   \<or> strategy_items e JsonObject = Some out"
  unfolding tryObject_def
  by (auto simp add: Let_def case_prod_beta strategy_items_def strategy_payload_def
      split: promise.splits option.splits if_splits)

lemma from_cases:
  "r = stubSuggestion (clock e) p w' \<or> strategy_items e s = Some (fst r) \<Longrightarrow>
   fst r \<noteq> [] \<and> from_stub_or_strategy e p r"
  by (auto simp add: from_stub_or_strategy_def dest: strategy_items_nonempty)

lemma tryTools_out:
  "fst (tryTools e p w) = Inr out \<Longrightarrow>
   out \<noteq> [] \<and> from_stub_or_strategy e p (out, snd (tryTools e p w))"
  using from_cases [of "(out, snd (tryTools e p w))" e p _ Tools] tryTools_cases [of e p w out]
  by auto

lemma trySchema_out:
  "fst (trySchema e p w) = Inr out \<Longrightarrow>
   out \<noteq> [] \<and> from_stub_or_strategy e p (out, snd (trySchema e p w))"
  using from_cases [of "(out, snd (trySchema e p w))" e p _ JsonSchema] trySchema_cases [of e p w out]
  by auto

lemma tryObject_out:
  "fst (tryObject e p w) = Inr out \<Longrightarrow>
   out \<noteq> [] \<and> from_stub_or_strategy e p (out, snd (tryObject e p w))"
  using from_cases [of "(out, snd (tryObject e p w))" e p _ JsonObject] tryObject_cases [of e p w out]
  by auto

lemma aiFallback_out:
  "fst (aiFallback e p k w) \<noteq> [] \<and> from_stub_or_strategy e p (aiFallback e p k w)"
proof (cases "gates_pass e p k w")
  case False
  then consider "AI_FALLBACK_ENABLED e \<noteq> ''true''" | "filled p < 2"
    | "AI_FALLBACK_ENABLED e = ''true''" "2 \<le> filled p" "\<not> fst (allowAiCall (clock e) k w)"
    | "AI_FALLBACK_ENABLED e = ''true''" "2 \<le> filled p" "fst (allowAiCall (clock e) k w)"
      "\<not> truthy (OPENAI_API_KEY e)"
    unfolding gates_pass_def by fastforce
  then show ?thesis
    by cases (simp_all add: aiFallback_toggle_off aiFallback_underspecified aiFallback_rate_limited
        aiFallback_no_key)
next
  case True
  let ?w1 = "snd (allowAiCall (clock e) k w)"
  show ?thesis
  proof (cases "fst (tryTools e p ?w1)")
    case (Inr out)
    with tryTools_out [OF Inr] show ?thesis
      by (simp add: aiFallback_gates_pass [OF True] case_prod_beta)
  next
    case A: (Inl err)
    let ?w2 = "snd (tryTools e p ?w1)"
    show ?thesis
    proof (cases "fst (trySchema e p ?w2)")
      case (Inr out)
      with A trySchema_out [OF Inr] show ?thesis
        by (simp add: aiFallback_gates_pass [OF True] case_prod_beta)
    next
      case B: (Inl err2)
      let ?w3 = "snd (trySchema e p ?w2)"
      show ?thesis
      proof (cases "fst (tryObject e p ?w3)")
        case (Inr out)
        with A B tryObject_out [OF Inr] show ?thesis
          by (simp add: aiFallback_gates_pass [OF True] case_prod_beta)
      next
        case (Inl err3)
        with A B show ?thesis
          by (simp add: aiFallback_gates_pass [OF True] case_prod_beta)
      qed
    qed
  qed
qed

text \<open>
  C1. \<^verbatim>\<open>aiFallback\<close> always returns a list with at least one item: its result is
  either what \<^verbatim>\<open>stubSuggestion\<close> returns or the non-empty mapped items of the
  valid payload of one of the strategies. When no strategy yields items (its call
  rejects, its text does not parse, its payload is invalid, or valid and empty), the
  result is the stub. Every exception of the body is a value that a \<^verbatim>\<open>catch\<close>
  receives, so the function returns in every case.
\<close>

theorem aiFallback_never_empty:
  "fst (aiFallback e p k w) \<noteq> []
   \<and> length (fst (aiFallback e p k w)) \<ge> 1
   \<and> ((\<exists>w'. aiFallback e p k w = stubSuggestion (clock e) p w')
      \<or> (\<exists>s. strategy_items e s = Some (fst (aiFallback e p k w))))
   \<and> ((\<forall>s. strategy_items e s = None) \<longrightarrow>
        (\<exists>w'. aiFallback e p k w = stubSuggestion (clock e) p w'))"
  using aiFallback_out [of e p k w]
  by (auto simp add: from_stub_or_strategy_def Suc_le_eq)

lemma validateCarriers_empty_items:
  "validateCarriers (JObj [(''items'', JArr [])]) = (True, JObj [(''items'', JArr [])], [])"
  by (simp add: validateCarriers_def carriersJsonSchema_def validate.simps)

lemma mock_strategy_items: "strategy_items (mock_env db) s = None"
  by (cases s)
    (simp_all add: strategy_items_def strategy_payload_def mock_env_def content_of_def
      validateCarriers_empty_items mapped_of_def items_of_def)

theorem aiFallback_never_empty_witness:
  "\<exists>w'. aiFallback (mock_env (Collection [])) truck_FR_DE ''local'' world0
         = stubSuggestion (\<lambda>k. 1000 * int k) truck_FR_DE w'"
  using aiFallback_never_empty [of "mock_env (Collection [])" truck_FR_DE "''local''" world0]
    mock_strategy_items [of "Collection []"]
  by (simp add: mock_env_def)

section \<open>An empty answer of Strategy A\<close>

lemma tryTools_empty:
  assumes "strategy_payload e Tools = Some d" "fst (validateCarriers d)"
    "items_of (fst (snd (validateCarriers d))) = []"
  shows "tryTools e p w =
     (Inr (fst (stubSuggestion (clock e) p (w\<lparr>calls := calls w @ [Tools]\<rparr>))),
      snd (stubSuggestion (clock e) p (w\<lparr>calls := calls w @ [Tools]\<rparr>)))"
  using assms unfolding tryTools_def strategy_payload_def
  by (auto simp add: Let_def case_prod_beta mapped_of_def
      split: promise.splits option.splits if_splits)

lemma aiFallback_tools_empty:
  assumes "gates_pass e p k w" "strategy_payload e Tools = Some d" "fst (validateCarriers d)"
    "items_of (fst (snd (validateCarriers d))) = []"
  shows "aiFallback e p k w =
     stubSuggestion (clock e) p ((snd (allowAiCall (clock e) k w))\<lparr>calls := calls w @ [Tools]\<rparr>)"
  by (simp add: aiFallback_gates_pass [OF assms(1)] tryTools_empty [OF assms(2-4)])

lemma mock_gates_pass: "gates_pass (mock_env db) truck_FR_DE ''local'' world0"
  by (simp add: gates_pass_def mock_env_def AI_FALLBACK_ENABLED_def OPENAI_API_KEY_def truthy_def
      filled_def truck_FR_DE_def world0_def allowAiCall_unfold Let_def aiMaxCalls_def)

lemma mock_tools_payload:
  "strategy_payload (mock_env db) Tools = Some (JObj [(''items'', JArr [])])"
  by (simp add: strategy_payload_def mock_env_def empty_items_text_def)

text \<open>
  C3, as stated, fails: with the mocked provider all gates pass, the payload of
  Strategy A parses, is valid and has no item, and the provider is called once, for
  Strategy A; Strategy B is never attempted.
\<close>

theorem tools_empty_counterexample:
  "gates_pass (mock_env (Collection [])) truck_FR_DE ''local'' world0
   \<and> strategy_payload (mock_env (Collection [])) Tools = Some (JObj [(''items'', JArr [])])
   \<and> validateCarriers (JObj [(''items'', JArr [])]) = (True, JObj [(''items'', JArr [])], [])
   \<and> items_of (JObj [(''items'', JArr [])]) = []
   \<and> JsonSchema \<notin> set (calls (snd (aiFallback (mock_env (Collection [])) truck_FR_DE ''local'' world0)))"
proof -
  have "aiFallback (mock_env (Collection [])) truck_FR_DE ''local'' world0 =
     stubSuggestion (clock (mock_env (Collection []))) truck_FR_DE
       ((snd (allowAiCall (clock (mock_env (Collection []))) ''local'' world0))\<lparr>calls := calls world0 @ [Tools]\<rparr>)"
    by (rule aiFallback_tools_empty [OF mock_gates_pass mock_tools_payload])
       (simp_all add: validateCarriers_empty_items items_of_def)
  then have "calls (snd (aiFallback (mock_env (Collection [])) truck_FR_DE ''local'' world0)) = [Tools]"
    by (simp add: world0_def)
  then show ?thesis
    by (simp add: mock_gates_pass mock_tools_payload validateCarriers_empty_items items_of_def)
qed

text \<open>
  C3, amended. When all gates pass and the payload of Strategy A parses and is valid
  but has no item, \<^verbatim>\<open>aiFallback\<close> returns the stub at once: the provider has been
  called for Strategy A only, and Strategies B and C are not attempted.
\<close>

theorem aiFallback_tools_empty_returns_stub:
  assumes "gates_pass e p k w"
      and "strategy_payload e Tools = Some d"
      and "fst (validateCarriers d)"
      and "items_of (fst (snd (validateCarriers d))) = []"
  shows "aiFallback e p k w =
           stubSuggestion (clock e) p ((snd (allowAiCall (clock e) k w))\<lparr>calls := calls w @ [Tools]\<rparr>)
         \<and> calls (snd (aiFallback e p k w)) = calls w @ [Tools]"
  by (simp add: aiFallback_tools_empty [OF assms])

theorem aiFallback_tools_empty_returns_stub_witness:
  "calls (snd (aiFallback (mock_env FindFails) truck_FR_DE ''local'' world0)) = [Tools]
   \<and> length (fst (aiFallback (mock_env FindFails) truck_FR_DE ''local'' world0)) = 1"
proof -
  have v: "fst (validateCarriers (JObj [(''items'', JArr [])]))"
    by (simp add: validateCarriers_empty_items)
  have i: "items_of (fst (snd (validateCarriers (JObj [(''items'', JArr [])])))) = []"
    by (simp add: validateCarriers_empty_items items_of_def)
  from aiFallback_tools_empty_returns_stub [OF mock_gates_pass mock_tools_payload v i]
  show ?thesis by (simp add: world0_def stubSuggestion_length)
qed

section \<open>The validator\<close>

lemma map_id_on: "(\<And>x. x \<in> set xs \<Longrightarrow> f x = x) \<Longrightarrow> map f xs = xs"
  by (induction xs) auto

lemma concat_all_nil: "(\<And>x. x \<in> set xs \<Longrightarrow> f x = []) \<Longrightarrow> concat (map f xs) = []"
  by (induction xs) auto

lemma filter_all: "(\<And>x. x \<in> set xs \<Longrightarrow> P x) \<Longrightarrow> filter P xs = xs"
  by (induction xs) auto

lemma filter_none: "(\<And>x. x \<in> set xs \<Longrightarrow> \<not> P x) \<Longrightarrow> filter P xs = []"
  by (induction xs) auto

lemma validate_satisfying: "satisfies s d \<Longrightarrow> validate s d = (d, [])"
proof (induction s d rule: satisfies.induct)
  case (5 s xs)
  show ?case
  proof (cases "items s")
    case None
    with 5 show ?thesis by (simp add: validate.simps)
  next
    case (Some si)
    with "5.prems" have all: "\<And>x. x \<in> set xs \<Longrightarrow> satisfies si x"
      by (simp add: list_all_iff)
    have each: "\<And>x. x \<in> set xs \<Longrightarrow> validate si x = (x, [])"
      using "5.IH" [OF Some] all by blast
    have "map fst (map (validate si) xs) = xs"
      using each by (simp add: map_id_on)
    moreover have "concat (map snd (map (validate si) xs)) = []"
      using each by (simp add: concat_all_nil)
    ultimately show ?thesis
      using "5.prems" Some by (simp add: validate.simps Let_def)
  qed
next
  case (6 s kvs)
  let ?sub = "\<lambda>kv. validate (the (map_of (properties s) (fst kv))) (snd kv)"
  from "6.prems" have obj: "stype s = TObject"
    and req: "\<And>k. k \<in> set (required s) \<Longrightarrow> k \<in> fst ` set kvs"
    and known: "\<And>kv. kv \<in> set kvs \<Longrightarrow>
          \<exists>sk. map_of (properties s) (fst kv) = Some sk \<and> satisfies sk (snd kv)"
    by (auto simp add: list_all_iff split: option.splits)
  have each: "\<And>kv. kv \<in> set kvs \<Longrightarrow> ?sub kv = (snd kv, [])"
  proof -
    fix kv assume kv: "kv \<in> set kvs"
    from known [OF kv] obtain sk where sk: "map_of (properties s) (fst kv) = Some sk"
      and sat: "satisfies sk (snd kv)" by blast
    from "6.IH" [OF kv sk sat] sk show "?sub kv = (snd kv, [])" by simp
  qed
  have kept: "filter (\<lambda>kv. fst kv \<in> fst ` set (properties s)) kvs = kvs"
  proof (rule filter_all)
    fix kv assume "kv \<in> set kvs"
    from known [OF this] show "fst kv \<in> fst ` set (properties s)"
      by (auto dest: map_of_SomeD intro: rev_image_eqI)
  qed
  have missing: "filter (\<lambda>k. k \<notin> fst ` set kvs) (required s) = []"
    by (rule filter_none) (simp add: req)
  have data: "map ((\<lambda>r. (fst r, fst (snd r))) \<circ> (\<lambda>kv. (fst kv, ?sub kv))) kvs = kvs"
    using each by (simp add: map_id_on comp_def)
  have errs: "\<forall>kv\<in>set kvs. snd (?sub kv) = []"
    using each by simp
  show ?case
    using obj by (simp add: validate.simps Let_def kept missing data errs)
qed (auto simp add: validate.simps split: option.splits)

lemma validate_add_prop:
  assumes "stype s = TObject" "k \<notin> fst ` set (properties s)" "k \<notin> set (required s)"
  shows "validate s (add_prop n k v x) = validate s x"
proof (cases x)
  case (JObj kvs)
  have keys: "fst ` set (take n kvs @ (k, v) # drop n kvs) = insert k (fst ` set kvs)"
  proof -
    have "set (take n kvs) \<union> set (drop n kvs) = set kvs"
      by (metis append_take_drop_id set_append)
    then show ?thesis by auto
  qed
  have kept: "filter (\<lambda>kv. fst kv \<in> fst ` set (properties s)) (take n kvs @ (k, v) # drop n kvs)
      = filter (\<lambda>kv. fst kv \<in> fst ` set (properties s)) kvs"
  proof -
    let ?P = "\<lambda>kv. fst kv \<in> fst ` set (properties s)"
    have "filter ?P (take n kvs @ (k, v) # drop n kvs) = filter ?P (take n kvs) @ filter ?P (drop n kvs)"
      using assms(2) by simp
    also have "\<dots> = filter ?P kvs"
      by (metis append_take_drop_id filter_append)
    finally show ?thesis .
  qed
  have missing: "filter (\<lambda>k'. k' \<notin> fst ` set (take n kvs @ (k, v) # drop n kvs)) (required s)
      = filter (\<lambda>k'. k' \<notin> fst ` set kvs) (required s)"
    unfolding keys using assms(3) by (intro filter_cong) auto
  show ?thesis
    using assms(1) by (simp only: JObj add_prop_def json.case validate.simps kept missing) simp
qed (simp_all add: add_prop_def)

lemma validate_at_index:
  assumes "\<And>x. validate si (f x) = validate si x"
  shows "validate (Schema TArray nl ap rq ps (Some si) en) (at_index i f d)
       = validate (Schema TArray nl ap rq ps (Some si) en) d"
proof (cases d)
  case (JArr xs)
  show ?thesis
  proof (cases "i < length xs")
    case True
    have "map (validate si) (xs[i := f (xs ! i)]) = map (validate si) xs"
      using True by (simp add: map_update assms list_update_same_conv)
    then show ?thesis
      using True by (simp add: JArr at_index_def validate.simps)
  next
    case False
    then show ?thesis by (simp add: JArr at_index_def)
  qed
qed (simp_all add: at_index_def)

lemma validate_at_key:
  assumes "stype s = TObject"
      and "\<And>x. validate (the (map_of (properties s) k)) (f x) = validate (the (map_of (properties s) k)) x"
  shows "validate s (at_key k f d) = validate s d"
proof (cases d)
  case (JObj kvs)
  let ?g = "\<lambda>kv. if fst kv = k then (k, f (snd kv)) else kv"
  let ?known = "\<lambda>kv. fst kv \<in> fst ` set (properties s)"
  let ?sub = "\<lambda>kv. (fst kv, validate (the (map_of (properties s) (fst kv))) (snd kv))"
  have fst_g: "\<And>kv. fst (?g kv) = fst kv" by simp
  have keys: "fst ` set (map ?g kvs) = fst ` set kvs"
  proof -
    have "map fst (map ?g kvs) = map fst kvs" by (induction kvs) auto
    then have "set (map fst (map ?g kvs)) = set (map fst kvs)" by (rule arg_cong)
    then show ?thesis by (simp only: set_map)
  qed
  have kept: "map ?sub (filter ?known (map ?g kvs)) = map ?sub (filter ?known kvs)"
    by (induction kvs) (auto simp add: assms(2))
  show ?thesis
    using assms(1) by (simp only: JObj at_key_def json.case validate.simps keys kept Let_def) simp
qed (simp_all add: at_key_def)

lemma carriers_stype: "stype carriersJsonSchema = TObject"
  by (simp add: carriersJsonSchema_def)

lemma validate_items_array_inject:
  assumes "\<And>x. validate item_schema (f x) = validate item_schema x"
  shows "validate carriersJsonSchema (at_key ''items'' (at_index i f) d) = validate carriersJsonSchema d"
proof (rule validate_at_key [OF carriers_stype])
  fix x
  show "validate (the (map_of (properties carriersJsonSchema) ''items'')) (at_index i f x)
      = validate (the (map_of (properties carriersJsonSchema) ''items'')) x"
    unfolding carriersJsonSchema_def schema.sel map_of.simps fst_conv snd_conv
    by (simp add: validate_at_index [OF assms])
qed

lemma validate_lanes_array_inject:
  assumes "\<And>x. validate lane_schema (f x) = validate lane_schema x"
  shows "validate item_schema (at_key ''lanes'' (at_index j f) x) = validate item_schema x"
proof (rule validate_at_key)
  show "stype item_schema = TObject" by (simp add: item_schema_def)
  fix y
  show "validate (the (map_of (properties item_schema) ''lanes'')) (at_index j f y)
      = validate (the (map_of (properties item_schema) ''lanes'')) y"
    unfolding item_schema_def schema.sel
    by (simp add: validate_at_index [OF assms])
qed

lemma validate_item_add_prop:
  "k \<notin> set [''id'', ''name'', ''types'', ''lanes'', ''description'', ''logoEmoji''] \<Longrightarrow>
   validate item_schema (add_prop n k v x) = validate item_schema x"
  by (rule validate_add_prop) (auto simp add: item_schema_def)

lemma validate_lane_add_prop:
  "k \<notin> set [''origin'', ''destination''] \<Longrightarrow>
   validate lane_schema (add_prop n k v x) = validate lane_schema x"
  by (rule validate_add_prop) (auto simp add: lane_schema_def)

lemma validate_top_add_prop:
  "k \<noteq> ''items'' \<Longrightarrow>
   validate carriersJsonSchema (add_prop n k v x) = validate carriersJsonSchema x"
  by (rule validate_add_prop) (auto simp add: carriersJsonSchema_def)

lemma validate_object_errors:
  assumes "stype s = TObject" "(k, v) \<in> set kvs" "map_of (properties s) k = Some sk"
    "err \<in> set (snd (validate sk v))"
  shows "err \<in> set (snd (validate s (JObj kvs)))"
proof -
  let ?known = "\<lambda>kv. fst kv \<in> fst ` set (properties s)"
  from assms(3) have "k \<in> fst ` set (properties s)"
    by (auto dest: map_of_SomeD intro: rev_image_eqI)
  with assms(2) have "(k, v) \<in> set (filter ?known kvs)" by simp
  with assms(3,4) have "\<exists>kv\<in>set (filter ?known kvs).
      err \<in> set (snd (validate (the (map_of (properties s) (fst kv))) (snd kv)))"
    by force
  then show ?thesis
    using assms(1) by (auto simp add: validate.simps Let_def)
qed

lemma validate_array_errors:
  assumes "stype s = TArray" "items s = Some si" "x \<in> set xs" "err \<in> set (snd (validate si x))"
  shows "err \<in> set (snd (validate s (JArr xs)))"
  using assms by (auto simp add: validate.simps Let_def)

lemma validate_item_missing_lanes:
  "missing_lanes x \<Longrightarrow> ErrRequired ''lanes'' \<in> set (snd (validate item_schema x))"
  by (cases x) (auto simp add: missing_lanes_def validate.simps item_schema_def Let_def)

lemma validateCarriers_missing_lanes:
  assumes "list_ex missing_lanes (items_of d)"
  shows "ErrRequired ''lanes'' \<in> set (snd (validate carriersJsonSchema d))"
proof -
  from assms obtain x where x: "x \<in> set (items_of d)" and m: "missing_lanes x"
    by (auto simp add: list_ex_iff)
  from x obtain kvs where d: "d = JObj kvs"
    by (cases d) (simp_all add: items_of_def)
  from x d obtain v where v: "map_of kvs ''items'' = Some v"
    by (cases "map_of kvs ''items''") (simp_all add: items_of_def)
  from x d v obtain xs where xs: "v = JArr xs"
    by (cases v) (simp_all add: items_of_def)
  from x d v xs have xin: "x \<in> set xs"
    by (simp add: items_of_def)
  from v xs have it: "map_of kvs ''items'' = Some (JArr xs)" by simp
  let ?arr = "Schema TArray False True [] [] (Some item_schema) None"
  have "ErrRequired ''lanes'' \<in> set (snd (validate ?arr (JArr xs)))"
    by (rule validate_array_errors [OF _ _ xin validate_item_missing_lanes [OF m]]) simp_all
  moreover have "(''items'', JArr xs) \<in> set kvs"
    using it by (rule map_of_SomeD)
  moreover have "map_of (properties carriersJsonSchema) ''items'' = Some ?arr"
    by (simp add: carriersJsonSchema_def)
  ultimately show ?thesis
    unfolding d using carriers_stype validate_object_errors by blast
qed

text \<open>
  What it is to satisfy each part of \<^verbatim>\<open>carriersJsonSchema\<close>: a lane is an object
  with the strings \<^verbatim>\<open>origin\<close> and \<^verbatim>\<open>destination\<close> and nothing else; an item is
  an object with the strings \<^verbatim>\<open>id\<close> and \<^verbatim>\<open>name\<close>, the array \<^verbatim>\<open>types\<close> of
  transport types, the array \<^verbatim>\<open>lanes\<close> of lanes, maybe a \<^verbatim>\<open>description\<close> and a
  \<^verbatim>\<open>logoEmoji\<close> that are strings or null, and nothing else; a payload is an object
  with the array \<^verbatim>\<open>items\<close> of items and nothing else.
\<close>

lemma satisfies_string: "satisfies string_schema v = is_string v"
  by (cases v) (simp_all add: string_schema_def is_string_def)

lemma satisfies_nullable_string: "satisfies nullable_string_schema v = (v = JNull \<or> is_string v)"
  by (cases v) (simp_all add: nullable_string_schema_def is_string_def)

lemma satisfies_transport:
  "satisfies transport_schema v =
     (v \<in> JStr ` {''truck'', ''reefer'', ''container'', ''flatbed'', ''tanker''})"
  by (cases v) (auto simp add: transport_schema_def)

lemma satisfies_lane:
  "satisfies lane_schema l =
     (\<exists>kvs. l = JObj kvs
        \<and> ''origin'' \<in> fst ` set kvs \<and> ''destination'' \<in> fst ` set kvs
        \<and> (\<forall>kv\<in>set kvs. fst kv \<in> {''origin'', ''destination''} \<and> is_string (snd kv)))"
proof (cases l)
  case (JObj kvs)
  have "(case map_of (properties lane_schema) (fst kv) of None \<Rightarrow> False
           | Some sk \<Rightarrow> satisfies sk (snd kv))
      = (fst kv \<in> {''origin'', ''destination''} \<and> is_string (snd kv))" for kv
    by (simp add: lane_schema_def satisfies_string)
  then show ?thesis
    by (simp add: JObj list_all_iff) (simp add: lane_schema_def)
qed (simp_all add: lane_schema_def)

lemma satisfies_item:
  "satisfies item_schema x =
     (\<exists>kvs. x = JObj kvs
        \<and> (\<forall>k\<in>{''id'', ''name'', ''types'', ''lanes''}. k \<in> fst ` set kvs)
        \<and> (\<forall>kv\<in>set kvs.
              (fst kv \<in> {''id'', ''name''} \<and> is_string (snd kv))
              \<or> (fst kv = ''types'' \<and> (\<exists>ts. snd kv = JArr ts \<and> (\<forall>t\<in>set ts. satisfies transport_schema t)))
              \<or> (fst kv = ''lanes'' \<and> (\<exists>ls. snd kv = JArr ls \<and> (\<forall>l\<in>set ls. satisfies lane_schema l)))
              \<or> (fst kv \<in> {''description'', ''logoEmoji''} \<and> (snd kv = JNull \<or> is_string (snd kv)))))"
proof (cases x)
  case (JObj kvs)
  have arr: "satisfies (Schema TArray False True [] [] (Some si) None) v
      = (\<exists>ys. v = JArr ys \<and> (\<forall>y\<in>set ys. satisfies si y))" for si v
    by (cases v) (simp_all add: list_all_iff)
  have "(case map_of (properties item_schema) (fst kv) of None \<Rightarrow> False
           | Some sk \<Rightarrow> satisfies sk (snd kv))
      = ((fst kv \<in> {''id'', ''name''} \<and> is_string (snd kv))
              \<or> (fst kv = ''types'' \<and> (\<exists>ts. snd kv = JArr ts \<and> (\<forall>t\<in>set ts. satisfies transport_schema t)))
              \<or> (fst kv = ''lanes'' \<and> (\<exists>ls. snd kv = JArr ls \<and> (\<forall>l\<in>set ls. satisfies lane_schema l)))
              \<or> (fst kv \<in> {''description'', ''logoEmoji''} \<and> (snd kv = JNull \<or> is_string (snd kv))))" for kv
    by (simp add: item_schema_def satisfies_string satisfies_nullable_string arr)
  then show ?thesis
    by (simp add: JObj list_all_iff) (simp add: item_schema_def)
qed (simp_all add: item_schema_def)

lemma satisfies_carriers:
  "satisfies carriersJsonSchema d =
     (\<exists>kvs. d = JObj kvs \<and> ''items'' \<in> fst ` set kvs
        \<and> (\<forall>kv\<in>set kvs. fst kv = ''items''
              \<and> (\<exists>xs. snd kv = JArr xs \<and> (\<forall>x\<in>set xs. satisfies item_schema x))))"
proof (cases d)
  case (JObj kvs)
  have arr: "satisfies (Schema TArray False True [] [] (Some si) None) v
      = (\<exists>ys. v = JArr ys \<and> (\<forall>y\<in>set ys. satisfies si y))" for si v
    by (cases v) (simp_all add: list_all_iff)
  have "(case map_of (properties carriersJsonSchema) (fst kv) of None \<Rightarrow> False
           | Some sk \<Rightarrow> satisfies sk (snd kv))
      = (fst kv = ''items''
              \<and> (\<exists>xs. snd kv = JArr xs \<and> (\<forall>x\<in>set xs. satisfies item_schema x)))" for kv
    by (simp add: carriersJsonSchema_def arr)
  then show ?thesis
    by (simp add: JObj list_all_iff) (simp add: carriersJsonSchema_def)
qed (simp_all add: carriersJsonSchema_def)

text \<open>
  C7. (a) Every payload that satisfies the carrier schema is accepted, unchanged and
  with no error. (b) The same payload with an unknown property injected into the
  top-level object, into an item or into a lane, at any position, is accepted and
  normalized to the payload without the property. (c) A payload with an item that has
  no \<^verbatim>\<open>lanes\<close> is rejected, and its errors include the missing \<^verbatim>\<open>lanes\<close>.
\<close>

theorem validateCarriers_roundtrip:
  "(satisfies carriersJsonSchema d \<longrightarrow> validateCarriers d = (True, d, []))
   \<and> (satisfies carriersJsonSchema d \<and> k \<noteq> ''items'' \<longrightarrow>
        validateCarriers (add_prop n k v d) = (True, d, []))
   \<and> (satisfies carriersJsonSchema d
        \<and> k \<notin> set [''id'', ''name'', ''types'', ''lanes'', ''description'', ''logoEmoji''] \<longrightarrow>
        validateCarriers (at_key ''items'' (at_index i (add_prop n k v)) d) = (True, d, []))
   \<and> (satisfies carriersJsonSchema d \<and> k \<notin> set [''origin'', ''destination''] \<longrightarrow>
        validateCarriers
          (at_key ''items'' (at_index i (at_key ''lanes'' (at_index j (add_prop n k v)))) d)
          = (True, d, []))
   \<and> (list_ex missing_lanes (items_of d) \<longrightarrow>
        \<not> fst (validateCarriers d) \<and> ErrRequired ''lanes'' \<in> set (snd (snd (validateCarriers d))))"
proof (intro conjI impI)
  assume "satisfies carriersJsonSchema d"
  then show "validateCarriers d = (True, d, [])"
    by (simp add: validateCarriers_def validate_satisfying)
next
  assume "satisfies carriersJsonSchema d \<and> k \<noteq> ''items''"
  then show "validateCarriers (add_prop n k v d) = (True, d, [])"
    by (simp add: validateCarriers_def validate_top_add_prop validate_satisfying)
next
  assume "satisfies carriersJsonSchema d
    \<and> k \<notin> set [''id'', ''name'', ''types'', ''lanes'', ''description'', ''logoEmoji'']"
  then have sat: "satisfies carriersJsonSchema d"
    and k: "k \<notin> set [''id'', ''name'', ''types'', ''lanes'', ''description'', ''logoEmoji'']"
    by simp_all
  have "validate carriersJsonSchema (at_key ''items'' (at_index i (add_prop n k v)) d)
      = validate carriersJsonSchema d"
    by (rule validate_items_array_inject) (rule validate_item_add_prop [OF k])
  with sat show "validateCarriers (at_key ''items'' (at_index i (add_prop n k v)) d) = (True, d, [])"
    by (simp add: validateCarriers_def validate_satisfying)
next
  assume "satisfies carriersJsonSchema d \<and> k \<notin> set [''origin'', ''destination'']"
  then have sat: "satisfies carriersJsonSchema d"
    and k: "k \<notin> set [''origin'', ''destination'']"
    by simp_all
  have "validate carriersJsonSchema
          (at_key ''items'' (at_index i (at_key ''lanes'' (at_index j (add_prop n k v)))) d)
      = validate carriersJsonSchema d"
    by (rule validate_items_array_inject, rule validate_lanes_array_inject)
       (rule validate_lane_add_prop [OF k])
  with sat show "validateCarriers
          (at_key ''items'' (at_index i (at_key ''lanes'' (at_index j (add_prop n k v)))) d)
          = (True, d, [])"
    by (simp add: validateCarriers_def validate_satisfying)
next
  assume m: "list_ex missing_lanes (items_of d)"
  from validateCarriers_missing_lanes [OF m]
  show "\<not> fst (validateCarriers d)"
    by (auto simp add: validateCarriers_def case_prod_beta)
  from validateCarriers_missing_lanes [OF m]
  show "ErrRequired ''lanes'' \<in> set (snd (snd (validateCarriers d)))"
    by (simp add: validateCarriers_def case_prod_beta)
qed

lemma sample_payload_satisfies: "satisfies carriersJsonSchema sample_payload"
  by (simp add: sample_payload_def sample_item_def carriersJsonSchema_def item_schema_def
      lane_schema_def transport_schema_def string_schema_def nullable_string_schema_def)

theorem validateCarriers_roundtrip_witness:
  "validateCarriers sample_payload = (True, sample_payload, [])
   \<and> validateCarriers (at_key ''items'' (at_index 0 (add_prop 5 ''contact'' sample_contact)) sample_payload)
       = (True, sample_payload, [])
   \<and> at_key ''items'' (at_index 0 (add_prop 5 ''contact'' sample_contact)) sample_payload
       = JObj [(''items'', JArr [JObj [(''id'', JStr ''c1''),
           (''name'', JStr ''Alpine Logistics''),
           (''types'', JArr [JStr ''truck'']),
           (''lanes'', JArr [JObj [(''origin'', JStr ''FR''), (''destination'', JStr ''DE'')]]),
           (''description'', JStr ''test''),
           (''contact'', JObj [(''email'', JStr ''sales@alpine.example'')])]])]
   \<and> \<not> fst (validateCarriers (JObj [(''items'', JArr [JObj [(''id'', JStr ''c1''),
           (''name'', JStr ''Alpine Logistics''), (''types'', JArr [JStr ''truck''])]])]))"
proof -
  have m: "list_ex missing_lanes (items_of (JObj [(''items'', JArr [JObj [(''id'', JStr ''c1''),
           (''name'', JStr ''Alpine Logistics''), (''types'', JArr [JStr ''truck''])]])]))"
    by (simp add: items_of_def missing_lanes_def)
  have inj: "at_key ''items'' (at_index 0 (add_prop 5 ''contact'' sample_contact)) sample_payload
       = JObj [(''items'', JArr [JObj [(''id'', JStr ''c1''),
           (''name'', JStr ''Alpine Logistics''),
           (''types'', JArr [JStr ''truck'']),
           (''lanes'', JArr [JObj [(''origin'', JStr ''FR''), (''destination'', JStr ''DE'')]]),
           (''description'', JStr ''test''),
           (''contact'', JObj [(''email'', JStr ''sales@alpine.example'')])]])]"
    by (simp add: at_key_def at_index_def add_prop_def sample_payload_def sample_item_def
        sample_contact_def)
  from validateCarriers_roundtrip [of sample_payload "''contact''" 5 sample_contact 0 0]
    validateCarriers_roundtrip [of "JObj [(''items'', JArr [JObj [(''id'', JStr ''c1''),
           (''name'', JStr ''Alpine Logistics''), (''types'', JArr [JStr ''truck''])]])]"
           "''contact''" 5 sample_contact 0 0]
    sample_payload_satisfies m inj
  show ?thesis by simp
qed




section \<open>The suggestions are unverified and carry no contact\<close>




















section \<open>The search handler\<close>

lemma matches_build_query: "matches (build_query b) c = spec_matches b c"
  by (auto simp add: matches_def build_query_def spec_matches_def truthy_def split: option.splits)

lemma find_limit_50_spec: "find_limit_50 (build_query b) docs = take 50 (filter (spec_matches b) docs)"
  by (simp add: find_limit_50_def matches_build_query [abs_def])

lemma db_out_fields:
  "get_prop ''id'' (db_out c) = Some (JStr (d_id c))
   \<and> get_prop ''name'' (db_out c) = Some (JStr (name c))
   \<and> get_prop ''types'' (db_out c) = Some (JArr (map JStr (types c)))
   \<and> get_prop ''lanes'' (db_out c) =
        Some (JArr (map (\<lambda>l. JObj [(''origin'', JStr (origin l)),
                                     (''destination'', JStr (destination l))]) (lanes c)))
   \<and> get_prop ''description'' (db_out c) = map_option JStr (description c)
   \<and> get_prop ''logoEmoji'' (db_out c) = map_option JStr (logoEmoji c)
   \<and> get_prop ''verified'' (db_out c) = Some (JBool (verified c))
   \<and> get_prop ''rating'' (db_out c) = map_option JNum (rating c)
   \<and> get_prop ''contact'' (db_out c) =
        map_option (\<lambda>k. JObj ((case email k of None \<Rightarrow> [] | Some x \<Rightarrow> [(''email'', JStr x)])
                              @ (case phone k of None \<Rightarrow> [] | Some x \<Rightarrow> [(''phone'', JStr x)])
                              @ (case website k of None \<Rightarrow> [] | Some x \<Rightarrow> [(''website'', JStr x)])))
          (contact c)
   \<and> get_prop ''source'' (db_out c) = Some (JStr ''db'')"
  by (simp add: db_out_def get_prop_def opt_prop_def lane_json_def [abs_def] contact_json_def
      split: option.splits)

lemma POST_collection:
  assumes "body req = Some b" "database e = Collection docs"
  shows "POST e req w =
     (let carriers = take 50 (filter (spec_matches b) docs);
          t0 = clock e (ticks w);
          t1 = clock e (ticks w + 1)
      in if carriers \<noteq> []
         then (Inr \<lparr>status = 200,
                    json_body = JObj [(''carriers'', JArr (map db_out carriers)),
                                      (''usedAi'', JBool False)],
                    x_duration_ms = Some (String_of_int (t1 - t0))\<rparr>,
               w\<lparr>ticks := ticks w + 2\<rparr>)
         else
           let r = aiFallback e (params_of b) (rateKey_of req) (w\<lparr>ticks := ticks w + 2\<rparr>)
           in (Inr (ai_response (fst r) notice_none_found (clock e (ticks (snd r)) - t0)),
               (snd r)\<lparr>ticks := ticks (snd r) + 1\<rparr>))"
  using assms
  by (simp add: POST_def DateNow_def Let_def case_prod_beta find_limit_50_spec params_of_def)

text \<open>
  C4. For every search request with a body, when the database answers: the query is the
  conjunction over exactly the supplied fields, so that an empty filter matches every
  document, and at most 50 documents are returned. If there is a carrier, the response
  is \<^verbatim>\<open>{ carriers, usedAi: false }\<close>, where each carrier found is returned with its
  id, name, types, lanes, verification flag and, when it has them, its description,
  glyph, rating and contact, tagged \<^verbatim>\<open>source: "db"\<close> and with no other property;
  the world has only lost the two clock readings of the handler:
  \<^verbatim>\<open>aiFallback\<close> has not run. If there is none, the response carries the
  suggestions of \<^verbatim>\<open>aiFallback\<close>, \<^verbatim>\<open>usedAi: true\<close> and the notice that no verified
  carrier was found.
\<close>

theorem POST_database_first:
  assumes "body req = Some b" and "database e = Collection docs"
  shows "find_limit_50 (build_query b) docs = take 50 (filter (spec_matches b) docs)
    \<and> (\<not> truthy (b_type b) \<and> \<not> truthy (b_origin b) \<and> \<not> truthy (b_destination b)
          \<and> b_verifiedOnly b \<noteq> Some True \<longrightarrow>
         find_limit_50 (build_query b) docs = take 50 docs)
    \<and> (take 50 (filter (spec_matches b) docs) \<noteq> [] \<longrightarrow>
         POST e req w =
           (Inr \<lparr>status = 200,
                 json_body = JObj [(''carriers'', JArr (map db_out (take 50 (filter (spec_matches b) docs)))),
                                   (''usedAi'', JBool False)],
                 x_duration_ms = Some (String_of_int (clock e (ticks w + 1) - clock e (ticks w)))\<rparr>,
            w\<lparr>ticks := ticks w + 2\<rparr>)
         \<and> (\<forall>c\<in>set (take 50 (filter (spec_matches b) docs)).
               get_prop ''id'' (db_out c) = Some (JStr (d_id c))
               \<and> get_prop ''name'' (db_out c) = Some (JStr (name c))
               \<and> get_prop ''types'' (db_out c) = Some (JArr (map JStr (types c)))
               \<and> get_prop ''lanes'' (db_out c) =
                    Some (JArr (map (\<lambda>l. JObj [(''origin'', JStr (origin l)),
                                                 (''destination'', JStr (destination l))]) (lanes c)))
               \<and> get_prop ''description'' (db_out c) = map_option JStr (description c)
               \<and> get_prop ''logoEmoji'' (db_out c) = map_option JStr (logoEmoji c)
               \<and> get_prop ''verified'' (db_out c) = Some (JBool (verified c))
               \<and> get_prop ''rating'' (db_out c) = map_option JNum (rating c)
               \<and> get_prop ''contact'' (db_out c) =
                    map_option
                      (\<lambda>k. JObj ((case email k of None \<Rightarrow> [] | Some x \<Rightarrow> [(''email'', JStr x)])
                                  @ (case phone k of None \<Rightarrow> [] | Some x \<Rightarrow> [(''phone'', JStr x)])
                                  @ (case website k of None \<Rightarrow> [] | Some x \<Rightarrow> [(''website'', JStr x)])))
                      (contact c)
               \<and> get_prop ''source'' (db_out c) = Some (JStr ''db'')
               \<and> (\<forall>k. k \<notin> set [''id'', ''name'', ''types'', ''lanes'', ''description'', ''logoEmoji'',
                                    ''verified'', ''rating'', ''contact'', ''source''] \<longrightarrow>
                        get_prop k (db_out c) = None)))
    \<and> (take 50 (filter (spec_matches b) docs) = [] \<longrightarrow>
         (let r = aiFallback e (params_of b) (rateKey_of req) (w\<lparr>ticks := ticks w + 2\<rparr>)
          in POST e req w =
               (Inr \<lparr>status = 200,
                     json_body = JObj [(''carriers'', JArr []),
                                       (''suggestions'', JArr (fst r)),
                                       (''usedAi'', JBool True),
                                       (''notice'', JStr notice_none_found)],
                     x_duration_ms = Some (String_of_int (clock e (ticks (snd r)) - clock e (ticks w)))\<rparr>,
                (snd r)\<lparr>ticks := ticks (snd r) + 1\<rparr>)))"
proof -
  have other: "get_prop k (db_out c) = None"
    if "k \<notin> set [''id'', ''name'', ''types'', ''lanes'', ''description'', ''logoEmoji'',
                    ''verified'', ''rating'', ''contact'', ''source'']" for k c
    using that
    by (simp add: db_out_def get_prop_def opt_prop_def map_add_def split: option.splits)
  show ?thesis
    using db_out_fields other
    by (simp add: POST_collection [OF assms] find_limit_50_spec Let_def ai_response_def
        spec_matches_def del: list.set)
qed

theorem POST_database_first_witness:
  "map_sum id json_body (fst (POST (test_env (Collection [alpine])) truck_request world0))
     = Inr (JObj [(''carriers'',
                   JArr [JObj [(''id'', JStr ''1''),
                               (''name'', JStr ''Alpine Logistics''),
                               (''types'', JArr [JStr ''truck'']),
                               (''lanes'', JArr [JObj [(''origin'', JStr ''FR''),
                                                       (''destination'', JStr ''DE'')]]),
                               (''description'', JStr ''test''),
                               (''verified'', JBool True),
                               (''source'', JStr ''db'')]]),
                  (''usedAi'', JBool False)])
   \<and> snd (POST (test_env (Collection [alpine])) truck_request world0) = world0\<lparr>ticks := 2\<rparr>
   \<and> notice_none_found
       = ''No verified carriers found for these filters. Showing unverified AI suggestions.''"
proof -
  have b: "body truck_request = Some \<lparr>b_type = Some ''truck'', b_origin = None, b_destination = None,
                    b_verifiedOnly = None\<rparr>"
    by (simp add: truck_request_def)
  have d: "database (test_env (Collection [alpine])) = Collection [alpine]"
    by (simp add: test_env_def)
  have f: "take 50 (filter (spec_matches \<lparr>b_type = Some ''truck'', b_origin = None, b_destination = None,
                    b_verifiedOnly = None\<rparr>) [alpine]) = [alpine]"
    by (simp add: spec_matches_def truthy_def alpine_def)
  have o: "db_out alpine = JObj [(''id'', JStr ''1''),
                               (''name'', JStr ''Alpine Logistics''),
                               (''types'', JArr [JStr ''truck'']),
                               (''lanes'', JArr [JObj [(''origin'', JStr ''FR''),
                                                       (''destination'', JStr ''DE'')]]),
                               (''description'', JStr ''test''),
                               (''verified'', JBool True),
                               (''source'', JStr ''db'')]"
    by (simp add: db_out_def alpine_def opt_prop_def lane_json_def)
  from POST_database_first [OF b d, of world0] f o
  show ?thesis by (simp add: world0_def notice_none_found_def)
qed

text \<open>
  C2. A request whose body is not well-formed JSON does not get a JSON response: the
  body is read outside every \<^verbatim>\<open>try\<close>, so the handler rejects with the error of
  \<^verbatim>\<open>req.json()\<close>.
\<close>

theorem POST_rejects_without_body:
  "POST e (req\<lparr>body := None\<rparr>) w = (Inl SyntaxError, w\<lparr>ticks := ticks w + 1\<rparr>)"
  by (simp add: POST_def DateNow_def)

text \<open>With a body, the handler always resolves to one of the two shapes of response.\<close>

lemma POST_resolves_with_body:
  assumes "body req = Some b"
  shows "\<exists>r. fst (POST e req w) = Inr r \<and> status r = 200
     \<and> ((\<exists>cs. cs \<noteq> [] \<and> json_body r = JObj [(''carriers'', JArr cs), (''usedAi'', JBool False)])
        \<or> (\<exists>ss notice. ss \<noteq> [] \<and> json_body r =
              JObj [(''carriers'', JArr []), (''suggestions'', JArr ss),
                    (''usedAi'', JBool True), (''notice'', JStr notice)]))"
proof (cases "database e")
  case ConnectFails
  with assms aiFallback_out show ?thesis
    by (simp add: POST_def DateNow_def Let_def case_prod_beta ai_response_def)
next
  case FindFails
  with assms aiFallback_out show ?thesis
    by (simp add: POST_def DateNow_def Let_def case_prod_beta ai_response_def)
next
  case (Collection docs)
  show ?thesis
  proof (cases "take 50 (filter (spec_matches b) docs) = []")
    case True
    with aiFallback_out show ?thesis
      by (simp add: POST_collection [OF assms Collection] Let_def ai_response_def)
  next
    case False
    then show ?thesis
      by (simp add: POST_collection [OF assms Collection] Let_def)
  qed
qed

section \<open>The honeypot of the contact handler\<close>

lemma rateLimit_allowed:
  assumes "fst (rateLimit clk key w)"
  shows "snd (rateLimit clk key w) =
     w\<lparr>ticks := ticks w + 1,
       attempts := (attempts w)(key \<mapsto>
         (case attempts w key of
            None \<Rightarrow> \<lparr>r_count = 1, ts = clk (ticks w)\<rparr>
          | Some item \<Rightarrow>
              if clk (ticks w) - ts item > 3600000 then \<lparr>r_count = 1, ts = clk (ticks w)\<rparr>
              else item\<lparr>r_count := r_count item + 1\<rparr>))\<rparr>"
  using assms
  by (auto simp add: rateLimit_def DateNow_def Let_def split: option.splits if_splits)

text \<open>
  C10. A contact request with a body whose \<^verbatim>\<open>companyWebsite\<close> is not empty, and that
  the rate limit of its address lets through, is answered 200 with \<^verbatim>\<open>{ ok: true }\<close>
  whatever its other fields are; no mail is sent, and the world changes only by the
  clock reading and the count of the rate limit entry of the address.
\<close>

theorem contact_POST_honeypot:
  assumes "c_body req = Some b"
      and "truthy (f_companyWebsite b)"
      and "fst (rateLimit (c_clock e) (contact_ip req) w)"
  shows "contact_POST e req w =
           (\<lparr>status = 200, json_body = JObj [(''ok'', JBool True)], x_duration_ms = None\<rparr>,
            snd (rateLimit (c_clock e) (contact_ip req) w))
       \<and> snd (contact_POST e req w) =
           w\<lparr>ticks := ticks w + 1,
             attempts := (attempts w)(contact_ip req \<mapsto>
               (case attempts w (contact_ip req) of
                  None \<Rightarrow> \<lparr>r_count = 1, ts = c_clock e (ticks w)\<rparr>
                | Some item \<Rightarrow>
                    if c_clock e (ticks w) - ts item > 3600000
                    then \<lparr>r_count = 1, ts = c_clock e (ticks w)\<rparr>
                    else item\<lparr>r_count := r_count item + 1\<rparr>))\<rparr>
       \<and> sent (snd (contact_POST e req w)) = sent w"
proof -
  from assms(2) have hp: "default_to [] (f_companyWebsite b) \<noteq> []"
    by (auto simp add: truthy_def default_to_def split: option.splits)
  have post: "contact_POST e req w = (json_ok, snd (rateLimit (c_clock e) (contact_ip req) w))"
    using assms(1,3) hp
    by (simp add: contact_POST_def contact_ip_def Let_def case_prod_beta)
  show ?thesis
    by (simp add: post rateLimit_allowed [OF assms(3)] json_ok_def)
qed

theorem contact_POST_honeypot_witness:
  "contact_POST contact_env0 honeypot_request world0 =
     (\<lparr>status = 200, json_body = JObj [(''ok'', JBool True)], x_duration_ms = None\<rparr>,
      world0\<lparr>ticks := 1, attempts := [''203.0.113.7'' \<mapsto> \<lparr>r_count = 1, ts = 0\<rparr>]\<rparr>)"
proof -
  have ip: "contact_ip honeypot_request = ''203.0.113.7''"
    by (simp add: contact_ip_def honeypot_request_def split_comma_first_def or_else_def)
  have b: "c_body honeypot_request = Some \<lparr>f_name = Some ''Bot'', f_email = Some ''not an address'', f_company = None,
                      f_phone = None, f_subject = None, f_message = None, f_consent = None,
                      f_companyWebsite = Some ''http://spam.example''\<rparr>"
    by (simp add: honeypot_request_def)
  have t: "truthy (f_companyWebsite \<lparr>f_name = Some ''Bot'', f_email = Some ''not an address'', f_company = None,
                      f_phone = None, f_subject = None, f_message = None, f_consent = None,
                      f_companyWebsite = Some ''http://spam.example''\<rparr>)"
    by (simp add: truthy_def)
  have r: "fst (rateLimit (c_clock contact_env0) (contact_ip honeypot_request) world0)"
    by (simp add: rateLimit_def DateNow_def world0_def Let_def)
  from contact_POST_honeypot [OF b t r] show ?thesis
    by (simp add: ip world0_def contact_env0_def rateLimit_def DateNow_def Let_def)
qed

end
